theory Spec2Isabelle
  imports Main "HOL-Library.Word" "HOL-Library.Multiset" "HOL-Library.Product_Lexorder"
begin

unbundle bit_operations_syntax

section \<open>Strings\<close>

text \<open>
  A JavaScript string is a sequence of UTF-16 code units. Literals of the source are
  written through \<open>str\<close>, which embeds an ASCII literal code unit by code unit.
\<close>

type_synonym jsstring = "16 word list"

definition str :: "string \<Rightarrow> jsstring" where
  "str s = map of_char s"

text \<open>
  \<open>String.prototype.trim\<close> strips the WhiteSpace and LineTerminator code points of
  ECMAScript from both ends; all of them lie in the basic plane, so the test is on one
  code unit.
\<close>

definition isWhiteSpace :: "16 word \<Rightarrow> bool" where
  "isWhiteSpace c \<longleftrightarrow>
     c = 0x0009 \<or> c = 0x000A \<or> c = 0x000B \<or> c = 0x000C \<or> c = 0x000D \<or> c = 0x0020 \<or>
     c = 0x00A0 \<or> c = 0x1680 \<or> (0x2000 \<le> c \<and> c \<le> 0x200A) \<or> c = 0x2028 \<or>
     c = 0x2029 \<or> c = 0x202F \<or> c = 0x205F \<or> c = 0x3000 \<or> c = 0xFEFF"

definition trim :: "jsstring \<Rightarrow> jsstring" where
  "trim s = rev (dropWhile isWhiteSpace (rev (dropWhile isWhiteSpace s)))"

section \<open>Data model (types/todo.ts and the input types of hooks/useTodos.ts)\<close>

datatype Priority = low | medium | high

datatype Category = personal | work | shopping | health | other

text \<open>An optional property \<open>p?: T\<close> is either left out (\<open>undefined\<close>) or supplied.\<close>

datatype 'a optional = Undefined | Defined 'a

text \<open>\<open>string | null\<close> is \<open>jsstring option\<close>, with \<open>None\<close> for \<open>null\<close>.\<close>

record CreateTodoInput =
  title :: jsstring
  dueDate :: "jsstring option optional"
  category :: "Category option optional"
  priority :: "Priority optional"

record UpdateTodoInput =
  id' :: jsstring
  title :: "jsstring optional"
  dueDate :: "jsstring option optional"
  category :: "Category option optional"
  priority :: "Priority optional"
  completed :: "bool optional"

text \<open>
  The state of \<open>AddTodoForm\<close>. The chosen date is a \<open>Date\<close> object or \<open>undefined\<close>; it is
  kept as the string \<open>toISOString\<close> gives for it. The category select holds a category
  or the empty string, which is \<open>None\<close> here.
\<close>

record AddTodoFormState =
  title :: jsstring
  dueDate :: "jsstring option"
  category :: "Category option"
  priority :: Priority

text \<open>
  The field \<open>order\<close> is a JavaScript number; the store only ever writes the integers
  \<open>Date.now()\<close> and array indices into it, and it is modelled as an integer.
\<close>

record Todo =
  id' :: jsstring
  title :: jsstring
  completed :: bool
  dueDate :: "jsstring option"
  category :: "Category option"
  priority :: Priority
  createdAt :: jsstring
  order :: int

datatype SortOption = Sort_order | Sort_dueDate | Sort_priority | Sort_createdAt

section \<open>JSON.stringify on a list of todos\<close>

text \<open>
  The values \<open>JSON.stringify\<close> and \<open>JSON.parse\<close> work on. Numbers are the safe integers;
  an object is the list of its properties in creation order.
\<close>

datatype json =
    JNull
  | JBool bool
  | JNumber int
  | JString jsstring
  | JArray "json list"
  | JObject "(jsstring \<times> json) list"

definition hexDigit :: "nat \<Rightarrow> 16 word" where
  "hexDigit d = (if d < 10 then 0x30 + of_nat d else 0x61 + of_nat (d - 10))"

definition hex4 :: "16 word \<Rightarrow> jsstring" where
  "hex4 c =
     (let n = unat c
      in [hexDigit (n div 4096), hexDigit (n div 256 mod 16), hexDigit (n div 16 mod 16),
          hexDigit (n mod 16)])"

definition isLeadSurrogate :: "16 word \<Rightarrow> bool" where
  "isLeadSurrogate c \<longleftrightarrow> 0xD800 \<le> c \<and> c \<le> 0xDBFF"

definition isTrailSurrogate :: "16 word \<Rightarrow> bool" where
  "isTrailSurrogate c \<longleftrightarrow> 0xDC00 \<le> c \<and> c \<le> 0xDFFF"

definition unicodeEscape :: "16 word \<Rightarrow> jsstring" where
  "unicodeEscape c = [0x5C, 0x75] @ hex4 c"

text \<open>One code unit that is not part of a surrogate pair, as QuoteJSONString writes it.\<close>

definition quoteUnit :: "16 word \<Rightarrow> jsstring" where
  "quoteUnit c =
     (if c = 0x08 then [0x5C, 0x62]
      else if c = 0x09 then [0x5C, 0x74]
      else if c = 0x0A then [0x5C, 0x6E]
      else if c = 0x0C then [0x5C, 0x66]
      else if c = 0x0D then [0x5C, 0x72]
      else if c = 0x22 then [0x5C, 0x22]
      else if c = 0x5C then [0x5C, 0x5C]
      else if c < 0x20 \<or> isLeadSurrogate c \<or> isTrailSurrogate c then unicodeEscape c
      else [c])"

text \<open>
  QuoteJSONString walks the code points of the string: a lead surrogate followed by a
  trail surrogate is one code point and is copied; a surrogate on its own is escaped.
\<close>

fun quoteBody :: "jsstring \<Rightarrow> jsstring" where
  "quoteBody [] = []"
| "quoteBody [c] = quoteUnit c"
| "quoteBody (c # d # cs) =
     (if isLeadSurrogate c \<and> isTrailSurrogate d then c # d # quoteBody cs
      else quoteUnit c @ quoteBody (d # cs))"

definition QuoteJSONString :: "jsstring \<Rightarrow> jsstring" where
  "QuoteJSONString s = [0x22] @ quoteBody s @ [0x22]"

text \<open>Number::toString on an integer: decimal digits, with a sign when negative.\<close>

function natToString :: "nat \<Rightarrow> jsstring" where
  "natToString n =
     (if n < 10 then [0x30 + of_nat n] else natToString (n div 10) @ [0x30 + of_nat (n mod 10)])"
  by pat_completeness auto
termination
  by (relation "measure id") auto

declare natToString.simps [simp del]

definition numberToString :: "int \<Rightarrow> jsstring" where
  "numberToString i = (if i < 0 then str ''-'' @ natToString (nat (- i)) else natToString (nat i))"

fun joinComma :: "jsstring list \<Rightarrow> jsstring" where
  "joinComma [] = []"
| "joinComma [x] = x"
| "joinComma (x # y # ys) = x @ str '','' @ joinComma (y # ys)"

text \<open>
  SerializeJSONProperty without indentation: an array as its elements between brackets,
  an object as its properties, in creation order, between braces.
\<close>

fun serialize :: "json \<Rightarrow> jsstring" where
  "serialize JNull = str ''null''"
| "serialize (JBool b) = (if b then str ''true'' else str ''false'')"
| "serialize (JNumber i) = numberToString i"
| "serialize (JString s) = QuoteJSONString s"
| "serialize (JArray vs) = str ''['' @ joinComma (map serialize vs) @ str '']''"
| "serialize (JObject ms) =
     str ''{'' @ joinComma (map (\<lambda>(k, v). QuoteJSONString k @ str '':'' @ serialize v) ms) @ str ''}''"

definition priorityString :: "Priority \<Rightarrow> jsstring" where
  "priorityString p = (case p of low \<Rightarrow> str ''low'' | medium \<Rightarrow> str ''medium'' | high \<Rightarrow> str ''high'')"

definition categoryString :: "Category \<Rightarrow> jsstring" where
  "categoryString c =
     (case c of personal \<Rightarrow> str ''personal'' | work \<Rightarrow> str ''work'' | shopping \<Rightarrow> str ''shopping''
      | health \<Rightarrow> str ''health'' | other \<Rightarrow> str ''other'')"

text \<open>
  A todo as the object it is at run time: its properties in creation order, which for
  every todo the store builds is the order of the literal in \<open>addTodo\<close> (a spread that
  overwrites a property keeps its place).
\<close>

definition todoValue :: "Todo \<Rightarrow> json" where
  "todoValue t =
     JObject
       [(str ''id'', JString (id' t)),
        (str ''title'', JString (title t)),
        (str ''completed'', JBool (completed t)),
        (str ''dueDate'', case dueDate t of None \<Rightarrow> JNull | Some s \<Rightarrow> JString s),
        (str ''category'', case category t of None \<Rightarrow> JNull | Some c \<Rightarrow> JString (categoryString c)),
        (str ''priority'', JString (priorityString (priority t))),
        (str ''createdAt'', JString (createdAt t)),
        (str ''order'', JNumber (order t))]"

definition JSON_stringify :: "Todo list \<Rightarrow> jsstring" where
  "JSON_stringify todos = serialize (JArray (map todoValue todos))"

section \<open>JSON.parse\<close>

text \<open>
  The parser follows the JSON grammar of ECMA-404 on code units. It fails with a syntax
  error as \<open>JSON.parse\<close> does; it answers \<open>NotModelled\<close> on a number literal whose
  decimal value is not a safe integer (a double, which this model does not represent);
  and it runs on fuel, one unit per nested value, element or member, of which
  \<open>JSON_parse\<close> supplies more than the text has characters. The properties of a parsed
  object stand in the order of the text; the place ECMAScript gives to keys that are
  array indices is not modelled.
\<close>

datatype failure = SyntaxErr | NotModelled | NoFuel

type_synonym 'a parsed = "failure + 'a \<times> jsstring"

definition isJsonWhiteSpace :: "16 word \<Rightarrow> bool" where
  "isJsonWhiteSpace c \<longleftrightarrow> c = 0x09 \<or> c = 0x0A \<or> c = 0x0D \<or> c = 0x20"

definition skipWhiteSpace :: "jsstring \<Rightarrow> jsstring" where
  "skipWhiteSpace s = dropWhile isJsonWhiteSpace s"

text \<open>Escapes in string literals.\<close>

definition hexValue :: "16 word \<Rightarrow> nat option" where
  "hexValue c =
     (if 0x30 \<le> c \<and> c \<le> 0x39 then Some (unat c - 0x30)
      else if 0x41 \<le> c \<and> c \<le> 0x46 then Some (unat c - 0x41 + 10)
      else if 0x61 \<le> c \<and> c \<le> 0x66 then Some (unat c - 0x61 + 10)
      else None)"

definition hex4Value :: "16 word \<Rightarrow> 16 word \<Rightarrow> 16 word \<Rightarrow> 16 word \<Rightarrow> 16 word option" where
  "hex4Value a b c d =
     (case (hexValue a, hexValue b, hexValue c, hexValue d) of
        (Some x, Some y, Some z, Some w) \<Rightarrow> Some (of_nat (4096 * x + 256 * y + 16 * z + w))
      | _ \<Rightarrow> None)"

definition unescape :: "16 word \<Rightarrow> 16 word option" where
  "unescape e =
     (if e = 0x22 then Some 0x22
      else if e = 0x5C then Some 0x5C
      else if e = 0x2F then Some 0x2F
      else if e = 0x62 then Some 0x08
      else if e = 0x66 then Some 0x0C
      else if e = 0x6E then Some 0x0A
      else if e = 0x72 then Some 0x0D
      else if e = 0x74 then Some 0x09
      else None)"

definition consChar :: "16 word \<Rightarrow> jsstring parsed \<Rightarrow> jsstring parsed" where
  "consChar c r = (case r of Inl e \<Rightarrow> Inl e | Inr (s, rest) \<Rightarrow> Inr (c # s, rest))"

text \<open>The characters of a string literal after its opening quote, up to the closing one.\<close>

fun parseChars :: "jsstring \<Rightarrow> jsstring parsed" where
  "parseChars [] = Inl SyntaxErr"
| "parseChars (c # cs) =
     (if c = 0x22 then Inr ([], cs)
      else if c = 0x5C then
        (case cs of
           [] \<Rightarrow> Inl SyntaxErr
         | e # es \<Rightarrow>
             if e = 0x75 then
               (case es of
                  h1 # h2 # h3 # h4 # rest \<Rightarrow>
                    (case hex4Value h1 h2 h3 h4 of
                       None \<Rightarrow> Inl SyntaxErr
                     | Some u \<Rightarrow> consChar u (parseChars rest))
                | _ \<Rightarrow> Inl SyntaxErr)
             else
               (case unescape e of
                  None \<Rightarrow> Inl SyntaxErr
                | Some u \<Rightarrow> consChar u (parseChars es)))
      else if c < 0x20 then Inl SyntaxErr
      else consChar c (parseChars cs))"

text \<open>Number literals: optional sign, digits without a leading zero, fraction, exponent.\<close>

definition isDigit :: "16 word \<Rightarrow> bool" where
  "isDigit c \<longleftrightarrow> 0x30 \<le> c \<and> c \<le> 0x39"

definition digitsValue :: "jsstring \<Rightarrow> int" where
  "digitsValue ds = foldl (\<lambda>n c. 10 * n + (uint c - 0x30)) 0 ds"

definition MAX_SAFE_INTEGER :: int where
  "MAX_SAFE_INTEGER = 2 ^ 53 - 1"

definition isSafeInteger :: "int \<Rightarrow> bool" where
  "isSafeInteger i \<longleftrightarrow> - MAX_SAFE_INTEGER \<le> i \<and> i \<le> MAX_SAFE_INTEGER"

text \<open>
  The value of a number literal with digits \<open>ds\<close> before and \<open>fs\<close> after the point and
  decimal exponent \<open>e\<close>, when it is a safe integer; other numbers are doubles that this
  model does not represent.
\<close>

definition numberValue :: "bool \<Rightarrow> jsstring \<Rightarrow> jsstring \<Rightarrow> int \<Rightarrow> jsstring \<Rightarrow> int parsed" where
  "numberValue negative ds fs e rest =
     (let m = digitsValue (ds @ fs);
          x = e - int (length fs);
          sign = (if negative then - 1 else 1)
      in if m = 0 then Inr (0, rest)
         else if 0 \<le> x then
           (if x \<le> 16 \<and> isSafeInteger (m * 10 ^ nat x) then Inr (sign * (m * 10 ^ nat x), rest)
            else Inl NotModelled)
         else if m mod 10 ^ nat (- x) = 0 \<and> isSafeInteger (m div 10 ^ nat (- x))
           then Inr (sign * (m div 10 ^ nat (- x)), rest)
         else Inl NotModelled)"

definition parseExponent :: "bool \<Rightarrow> jsstring \<Rightarrow> jsstring \<Rightarrow> jsstring \<Rightarrow> int parsed" where
  "parseExponent negative ds fs s =
     (case s of
        [] \<Rightarrow> numberValue negative ds fs 0 s
      | c # cs \<Rightarrow>
          if c = 0x65 \<or> c = 0x45 then
            (let (eneg, s1) = (case cs of
                                 [] \<Rightarrow> (False, cs)
                               | g # gs \<Rightarrow> if g = 0x2D then (True, gs) else if g = 0x2B then (False, gs)
                                           else (False, cs));
                 es = takeWhile isDigit s1
             in if es = [] then Inl SyntaxErr
                else numberValue negative ds fs
                       (if eneg then - digitsValue es else digitsValue es)
                       (dropWhile isDigit s1))
          else numberValue negative ds fs 0 s)"

definition parseFraction :: "bool \<Rightarrow> jsstring \<Rightarrow> jsstring \<Rightarrow> int parsed" where
  "parseFraction negative ds s =
     (case s of
        [] \<Rightarrow> parseExponent negative ds [] s
      | c # cs \<Rightarrow>
          if c = 0x2E then
            (let fs = takeWhile isDigit cs
             in if fs = [] then Inl SyntaxErr
                else parseExponent negative ds fs (dropWhile isDigit cs))
          else parseExponent negative ds [] s)"

definition parseUnsigned :: "bool \<Rightarrow> jsstring \<Rightarrow> int parsed" where
  "parseUnsigned negative s =
     (let ds = takeWhile isDigit s
      in if ds = [] \<or> (1 < length ds \<and> hd ds = 0x30) then Inl SyntaxErr
         else parseFraction negative ds (dropWhile isDigit s))"

definition parseNumber :: "jsstring \<Rightarrow> int parsed" where
  "parseNumber s =
     (case s of
        [] \<Rightarrow> Inl SyntaxErr
      | c # cs \<Rightarrow> if c = 0x2D then parseUnsigned True cs else parseUnsigned False s)"

text \<open>CreateDataProperty on the object under construction: a repeated key overwrites.\<close>

fun defineProperty :: "(jsstring \<times> json) list \<Rightarrow> jsstring \<times> json \<Rightarrow> (jsstring \<times> json) list" where
  "defineProperty [] kv = [kv]"
| "defineProperty ((k, v) # ms) kv = (if k = fst kv then (k, snd kv) # ms else (k, v) # defineProperty ms kv)"

text \<open>
  A value after optional white space; the elements of an array after its first
  bracket; the members of an object after its first brace.
\<close>

fun parseValue :: "nat \<Rightarrow> jsstring \<Rightarrow> json parsed"
  and parseElements :: "nat \<Rightarrow> jsstring \<Rightarrow> json list parsed"
  and parseMembers :: "nat \<Rightarrow> jsstring \<Rightarrow> (jsstring \<times> json) list parsed"
where
  "parseValue 0 s = Inl NoFuel"
| "parseValue (Suc n) s =
     (case skipWhiteSpace s of
        [] \<Rightarrow> Inl SyntaxErr
      | c # cs \<Rightarrow>
          if c = 0x5B then
            (case skipWhiteSpace cs of
               [] \<Rightarrow> Inl SyntaxErr
             | d # ds \<Rightarrow>
                 if d = 0x5D then Inr (JArray [], ds)
                 else (case parseElements n (d # ds) of
                         Inl e \<Rightarrow> Inl e
                       | Inr (vs, rest) \<Rightarrow> Inr (JArray vs, rest)))
          else if c = 0x7B then
            (case skipWhiteSpace cs of
               [] \<Rightarrow> Inl SyntaxErr
             | d # ds \<Rightarrow>
                 if d = 0x7D then Inr (JObject [], ds)
                 else (case parseMembers n (d # ds) of
                         Inl e \<Rightarrow> Inl e
                       | Inr (ms, rest) \<Rightarrow> Inr (JObject (foldl defineProperty [] ms), rest)))
          else if c = 0x22 then
            (case parseChars cs of Inl e \<Rightarrow> Inl e | Inr (x, rest) \<Rightarrow> Inr (JString x, rest))
          else if c = 0x2D \<or> isDigit c then
            (case parseNumber (c # cs) of Inl e \<Rightarrow> Inl e | Inr (i, rest) \<Rightarrow> Inr (JNumber i, rest))
          else if take 4 (c # cs) = str ''true'' then Inr (JBool True, drop 4 (c # cs))
          else if take 5 (c # cs) = str ''false'' then Inr (JBool False, drop 5 (c # cs))
          else if take 4 (c # cs) = str ''null'' then Inr (JNull, drop 4 (c # cs))
          else Inl SyntaxErr)"
| "parseElements 0 s = Inl NoFuel"
| "parseElements (Suc n) s =
     (case parseValue n s of
        Inl e \<Rightarrow> Inl e
      | Inr (v, rest) \<Rightarrow>
          (case skipWhiteSpace rest of
             [] \<Rightarrow> Inl SyntaxErr
           | c # cs \<Rightarrow>
               if c = 0x2C then
                 (case parseElements n cs of Inl e \<Rightarrow> Inl e | Inr (vs, rest') \<Rightarrow> Inr (v # vs, rest'))
               else if c = 0x5D then Inr ([v], cs)
               else Inl SyntaxErr))"
| "parseMembers 0 s = Inl NoFuel"
| "parseMembers (Suc n) s =
     (case skipWhiteSpace s of
        [] \<Rightarrow> Inl SyntaxErr
      | q # qs \<Rightarrow>
          if q \<noteq> 0x22 then Inl SyntaxErr
          else (case parseChars qs of
                  Inl e \<Rightarrow> Inl e
                | Inr (k, rest) \<Rightarrow>
                    (case skipWhiteSpace rest of
                       [] \<Rightarrow> Inl SyntaxErr
                     | c # cs \<Rightarrow>
                         if c \<noteq> 0x3A then Inl SyntaxErr
                         else (case parseValue n cs of
                                 Inl e \<Rightarrow> Inl e
                               | Inr (v, rest') \<Rightarrow>
                                   (case skipWhiteSpace rest' of
                                      [] \<Rightarrow> Inl SyntaxErr
                                    | d # ds \<Rightarrow>
                                        if d = 0x2C then
                                          (case parseMembers n ds of
                                             Inl e \<Rightarrow> Inl e
                                           | Inr (ms, rest'') \<Rightarrow> Inr ((k, v) # ms, rest''))
                                        else if d = 0x7D then Inr ([(k, v)], ds)
                                        else Inl SyntaxErr)))))"

definition JSON_parse :: "jsstring \<Rightarrow> failure + json" where
  "JSON_parse s =
     (case parseValue (Suc (length s)) s of
        Inl e \<Rightarrow> Inl e
      | Inr (v, rest) \<Rightarrow> if skipWhiteSpace rest = [] then Inr v else Inl SyntaxErr)"


text \<open>
  The cast \<open>as Todo[]\<close> is not checked at run time. A parsed value is a list of todos of
  this model when it is an array of objects with exactly the eight properties of a todo,
  in the order the store writes them, each of its type; on any other value the cache
  would hold something that is no \<open>Todo[]\<close>, and the answer is \<open>None\<close>.
\<close>

definition asString :: "json \<Rightarrow> jsstring option" where
  "asString v = (case v of JString s \<Rightarrow> Some s | _ \<Rightarrow> None)"

definition asBool :: "json \<Rightarrow> bool option" where
  "asBool v = (case v of JBool b \<Rightarrow> Some b | _ \<Rightarrow> None)"

definition asNumber :: "json \<Rightarrow> int option" where
  "asNumber v = (case v of JNumber i \<Rightarrow> Some i | _ \<Rightarrow> None)"

definition asPriority :: "json \<Rightarrow> Priority option" where
  "asPriority v =
     (case v of
        JString s \<Rightarrow>
          if s = str ''low'' then Some low else if s = str ''medium'' then Some medium
          else if s = str ''high'' then Some high else None
      | _ \<Rightarrow> None)"

definition asNullableString :: "json \<Rightarrow> jsstring option option" where
  "asNullableString v = (case v of JNull \<Rightarrow> Some None | JString s \<Rightarrow> Some (Some s) | _ \<Rightarrow> None)"

definition asNullableCategory :: "json \<Rightarrow> Category option option" where
  "asNullableCategory v =
     (case v of
        JNull \<Rightarrow> Some None
      | JString s \<Rightarrow>
          if s = str ''personal'' then Some (Some personal)
          else if s = str ''work'' then Some (Some work)
          else if s = str ''shopping'' then Some (Some shopping)
          else if s = str ''health'' then Some (Some health)
          else if s = str ''other'' then Some (Some other)
          else None
      | _ \<Rightarrow> None)"

definition todoKeys :: "jsstring list" where
  "todoKeys =
     [str ''id'', str ''title'', str ''completed'', str ''dueDate'', str ''category'',
      str ''priority'', str ''createdAt'', str ''order'']"

definition asTodo :: "json \<Rightarrow> Todo option" where
  "asTodo v =
     (case v of
        JObject ms \<Rightarrow>
          if map fst ms \<noteq> todoKeys then None
          else
            (case map snd ms of
               [a, b, c, d, e, f, g, h] \<Rightarrow>
                 (case (asString a, asString b, asBool c, asNullableString d) of
                    (Some i, Some ti, Some co, Some du) \<Rightarrow>
                      (case (asNullableCategory e, asPriority f, asString g, asNumber h) of
                         (Some ca, Some pr, Some cr, Some ord) \<Rightarrow>
                           Some \<lparr>id' = i, title = ti, completed = co, dueDate = du, category = ca,
                                 priority = pr, createdAt = cr, order = ord\<rparr>
                       | _ \<Rightarrow> None)
                  | _ \<Rightarrow> None)
             | _ \<Rightarrow> None)
      | _ \<Rightarrow> None)"

definition asTodos :: "json \<Rightarrow> Todo list option" where
  "asTodos v = (case v of JArray vs \<Rightarrow> those (map asTodo vs) | _ \<Rightarrow> None)"

section \<open>The store (hooks/useTodos.ts)\<close>

definition STORAGE_KEY :: jsstring where
  "STORAGE_KEY = str ''minimalist-todos''"

text \<open>
  A listener is an opaque callback; calling it is recorded in the trace. The trace also
  records every call of \<open>localStorage.setItem\<close> and of \<open>console.error\<close>.
\<close>

type_synonym listener = nat

datatype error = ReferenceError | QuotaExceededError | SyntaxError

datatype event = SetItem jsstring jsstring | ConsoleError jsstring error | Call listener

text \<open>
  The module state and its environment: whether \<open>window\<close> (and with it \<open>localStorage\<close>)
  exists, the cache, the listener set in insertion order, the contents of
  \<open>localStorage\<close>, and which writes the storage accepts (a write it does not accept
  raises, as on an exceeded quota).
\<close>

record Store =
  window :: bool
  todosCache :: "Todo list"
  listeners :: "listener list"
  localStorage :: "jsstring \<rightharpoonup> jsstring"
  accepts :: "jsstring \<Rightarrow> jsstring \<Rightarrow> bool"
  trace :: "event list"

definition callListener :: "listener \<Rightarrow> Store \<Rightarrow> Store" where
  "callListener l s = s\<lparr>trace := trace s @ [Call l]\<rparr>"

definition emitChange :: "Store \<Rightarrow> Store" where
  "emitChange s = fold callListener (listeners s) s"

definition subscribe :: "listener \<Rightarrow> Store \<Rightarrow> Store" where
  "subscribe l s = (if l \<in> set (listeners s) then s else s\<lparr>listeners := listeners s @ [l]\<rparr>)"

definition unsubscribe :: "listener \<Rightarrow> Store \<Rightarrow> Store" where
  "unsubscribe l s = s\<lparr>listeners := removeAll l (listeners s)\<rparr>"

definition getSnapshot :: "Store \<Rightarrow> Todo list" where
  "getSnapshot s = todosCache s"

definition console_error :: "jsstring \<Rightarrow> error \<Rightarrow> Store \<Rightarrow> Store" where
  "console_error msg e s = s\<lparr>trace := trace s @ [ConsoleError msg e]\<rparr>"

definition getItem :: "jsstring \<Rightarrow> Store \<Rightarrow> error + jsstring option" where
  "getItem k s = (if \<not> window s then Inl ReferenceError else Inr (localStorage s k))"

definition setItem :: "jsstring \<Rightarrow> jsstring \<Rightarrow> Store \<Rightarrow> (error + unit) \<times> Store" where
  "setItem k v s =
     (if \<not> window s then (Inl ReferenceError, s)
      else let s1 = s\<lparr>trace := trace s @ [SetItem k v]\<rparr>
           in if accepts s k v then (Inr (), s1\<lparr>localStorage := (localStorage s)(k \<mapsto> v)\<rparr>)
              else (Inl QuotaExceededError, s1))"

definition persistToStorage :: "Todo list \<Rightarrow> Store \<Rightarrow> Store" where
  "persistToStorage todos s =
     (let s1 = s\<lparr>todosCache := todos\<rparr>;
          (r, s2) = setItem STORAGE_KEY (JSON_stringify todos) s1;
          s3 = (case r of
                  Inl e \<Rightarrow> console_error (str ''Failed to save todos to localStorage:'') e s2
                | Inr u \<Rightarrow> s2)
      in emitChange s3)"

text \<open>
  \<open>initializeFromStorage\<close>. The answer is \<open>None\<close> when the stored text parses to a value
  that this model has no todos for (see \<open>asTodos\<close>), a number that is no safe integer
  among them.
\<close>

definition initializeFromStorage :: "Store \<Rightarrow> Store option" where
  "initializeFromStorage s =
     (if \<not> window s then Some s
      else if 0 < length (todosCache s) then Some s
      else
        (case getItem STORAGE_KEY s of
           Inl e \<Rightarrow> Some (console_error (str ''Failed to load todos from localStorage:'') e s)
         | Inr None \<Rightarrow> Some s
         | Inr (Some stored) \<Rightarrow>
             if stored = [] then Some s
             else
               (case JSON_parse stored of
                  Inl SyntaxErr \<Rightarrow>
                    Some (console_error (str ''Failed to load todos from localStorage:'')
                            SyntaxError s)
                | Inl NotModelled \<Rightarrow> None
                | Inl NoFuel \<Rightarrow> None
                | Inr v \<Rightarrow>
                    (case asTodos v of
                       None \<Rightarrow> None
                     | Some todos \<Rightarrow> Some (s\<lparr>todosCache := todos\<rparr>)))))"

text \<open>
  A fresh instance of the module over the same storage, as after a reload of the page:
  the cache empty, no listeners, the contents of \<open>localStorage\<close> kept.
\<close>

definition freshStore :: "Store \<Rightarrow> Store" where
  "freshStore s =
     \<lparr>window = window s, todosCache = [], listeners = [], localStorage = localStorage s,
      accepts = accepts s, trace = []\<rparr>"

text \<open>The operator \<open>??\<close> with the right operands the source gives it.\<close>

definition orNull :: "'a option optional \<Rightarrow> 'a option" where
  "orNull v = (case v of Undefined \<Rightarrow> None | Defined None \<Rightarrow> None | Defined (Some x) \<Rightarrow> Some x)"

definition orMedium :: "Priority optional \<Rightarrow> Priority" where
  "orMedium v = (case v of Undefined \<Rightarrow> medium | Defined p \<Rightarrow> p)"

text \<open>
  \<open>addTodo\<close> reads three things from the environment, which are arguments here:
  \<open>crypto.randomUUID()\<close>, \<open>new Date().toISOString()\<close> and \<open>Date.now()\<close>.
\<close>

definition addTodo ::
  "CreateTodoInput \<Rightarrow> jsstring \<Rightarrow> jsstring \<Rightarrow> int \<Rightarrow> Store \<Rightarrow> Todo \<times> Store" where
  "addTodo input uuid nowISO nowMs s =
     (let newTodo =
            \<lparr>id' = uuid,
             title = CreateTodoInput.title input,
             completed = False,
             dueDate = orNull (CreateTodoInput.dueDate input),
             category = orNull (CreateTodoInput.category input),
             priority = orMedium (CreateTodoInput.priority input),
             createdAt = nowISO,
             order = nowMs\<rparr>
      in (newTodo, persistToStorage (todosCache s @ [newTodo]) s))"

definition applyUpdate :: "UpdateTodoInput \<Rightarrow> Todo \<Rightarrow> Todo" where
  "applyUpdate input todo =
     todo\<lparr>title := (case UpdateTodoInput.title input of Undefined \<Rightarrow> title todo | Defined v \<Rightarrow> v),
          dueDate := (case UpdateTodoInput.dueDate input of Undefined \<Rightarrow> dueDate todo | Defined v \<Rightarrow> v),
          category := (case UpdateTodoInput.category input of Undefined \<Rightarrow> category todo | Defined v \<Rightarrow> v),
          priority := (case UpdateTodoInput.priority input of Undefined \<Rightarrow> priority todo | Defined v \<Rightarrow> v),
          completed := (case UpdateTodoInput.completed input of Undefined \<Rightarrow> completed todo | Defined v \<Rightarrow> v)\<rparr>"

definition updateTodo :: "UpdateTodoInput \<Rightarrow> Store \<Rightarrow> Store" where
  "updateTodo input s =
     (let updated = map (\<lambda>todo. if id' todo = UpdateTodoInput.id' input then applyUpdate input todo else todo)
                        (todosCache s)
      in persistToStorage updated s)"

definition deleteTodo :: "jsstring \<Rightarrow> Store \<Rightarrow> Store" where
  "deleteTodo i s = persistToStorage (filter (\<lambda>todo. id' todo \<noteq> i) (todosCache s)) s"

definition toggleTodo :: "jsstring \<Rightarrow> Store \<Rightarrow> Store" where
  "toggleTodo i s =
     (let updated = map (\<lambda>todo. if id' todo = i then todo\<lparr>completed := \<not> completed todo\<rparr> else todo)
                        (todosCache s)
      in persistToStorage updated s)"

text \<open>\<open>Array.prototype.findIndex\<close>: the first index whose element satisfies the test, or -1.\<close>

fun findIndexFrom :: "nat \<Rightarrow> ('a \<Rightarrow> bool) \<Rightarrow> 'a list \<Rightarrow> int" where
  "findIndexFrom k P [] = - 1"
| "findIndexFrom k P (x # xs) = (if P x then int k else findIndexFrom (Suc k) P xs)"

definition findIndex :: "('a \<Rightarrow> bool) \<Rightarrow> 'a list \<Rightarrow> int" where
  "findIndex P xs = findIndexFrom 0 P xs"

text \<open>
  \<open>Array.prototype.splice(start, deleteCount, ...items)\<close>: the removed elements and the
  array afterwards, with the clamping of both arguments that ECMAScript prescribes.
\<close>

definition splice :: "int \<Rightarrow> int \<Rightarrow> 'a list \<Rightarrow> 'a list \<Rightarrow> 'a list \<times> 'a list" where
  "splice start deleteCount items xs =
     (let len = int (length xs);
          actualStart = (if start < 0 then max (len + start) 0 else min start len);
          actualDeleteCount = min (max deleteCount 0) (len - actualStart);
          a = nat actualStart;
          d = nat actualDeleteCount
      in (take d (drop a xs), take a xs @ items @ drop (a + d) xs))"

definition reindex :: "Todo list \<Rightarrow> Todo list" where
  "reindex result = map (\<lambda>(todo, index). todo\<lparr>order := int index\<rparr>) (zip result [0..<length result])"

text \<open>
  The destructuring \<open>const [removed] = ...\<close> takes the first removed element. The list is
  never empty there, since \<open>oldIndex\<close> is an index of the array; the model leaves the store
  alone in that unreachable case.
\<close>

definition reorderTodos :: "jsstring \<Rightarrow> jsstring \<Rightarrow> Store \<Rightarrow> Store" where
  "reorderTodos activeId overId s =
     (let oldIndex = findIndex (\<lambda>t. id' t = activeId) (todosCache s);
          newIndex = findIndex (\<lambda>t. id' t = overId) (todosCache s)
      in if oldIndex = - 1 \<or> newIndex = - 1 then s
         else (case splice oldIndex 1 [] (todosCache s) of
                 ([], result1) \<Rightarrow> s
               | (removed # rest, result1) \<Rightarrow>
                   persistToStorage (reindex (snd (splice newIndex 0 [removed] result1))) s))"

section \<open>The submit handler of the form (components/AddTodoForm.tsx)\<close>

definition handleSubmit ::
  "AddTodoFormState \<Rightarrow> jsstring \<Rightarrow> jsstring \<Rightarrow> int \<Rightarrow> Store \<Rightarrow> AddTodoFormState \<times> Store" where
  "handleSubmit form uuid nowISO nowMs s =
     (if trim (AddTodoFormState.title form) = [] then (form, s)
      else
        (\<lparr>AddTodoFormState.title = [], dueDate = None, category = None, priority = medium\<rparr>,
         snd (addTodo
               \<lparr>CreateTodoInput.title = trim (AddTodoFormState.title form),
                dueDate = Defined (AddTodoFormState.dueDate form),
                category = Defined (AddTodoFormState.category form),
                priority = Defined (AddTodoFormState.priority form)\<rparr>
               uuid nowISO nowMs s)))"

section \<open>Sorting (components/TodoList.tsx)\<close>

text \<open>
  A comparator returns a JavaScript number; \<open>None\<close> stands for NaN, which the subtraction
  of two time values gives as soon as one of the dates is invalid. The time value of a
  date string, \<open>new Date(s).getTime()\<close>, is an argument \<open>getTime\<close> of the comparator.
\<close>

definition jsMinus :: "int option \<Rightarrow> int option \<Rightarrow> int option" where
  "jsMinus a b = (case (a, b) of (Some x, Some y) \<Rightarrow> Some (x - y) | _ \<Rightarrow> None)"

definition PRIORITY_ORDER :: "Priority \<Rightarrow> int" where
  "PRIORITY_ORDER p = (case p of high \<Rightarrow> 0 | medium \<Rightarrow> 1 | low \<Rightarrow> 2)"

text \<open>\<open>!a.dueDate\<close> holds for \<open>null\<close> and for the empty string.\<close>

definition falsy :: "jsstring option \<Rightarrow> bool" where
  "falsy v = (case v of None \<Rightarrow> True | Some s \<Rightarrow> s = [])"

definition timeOf :: "(jsstring \<Rightarrow> int option) \<Rightarrow> jsstring option \<Rightarrow> int option" where
  "timeOf getTime v = (case v of None \<Rightarrow> None | Some s \<Rightarrow> getTime s)"

definition compareTodos :: "(jsstring \<Rightarrow> int option) \<Rightarrow> SortOption \<Rightarrow> Todo \<Rightarrow> Todo \<Rightarrow> int option" where
  "compareTodos getTime sortBy a b =
     (case sortBy of
        Sort_dueDate \<Rightarrow>
          if falsy (dueDate a) \<and> falsy (dueDate b) then Some 0
          else if falsy (dueDate a) then Some 1
          else if falsy (dueDate b) then Some (- 1)
          else jsMinus (timeOf getTime (dueDate a)) (timeOf getTime (dueDate b))
      | Sort_priority \<Rightarrow> Some (PRIORITY_ORDER (priority a) - PRIORITY_ORDER (priority b))
      | Sort_createdAt \<Rightarrow> jsMinus (getTime (createdAt b)) (getTime (createdAt a))
      | Sort_order \<Rightarrow> Some (order a - order b))"

text \<open>
  \<open>Array.prototype.sort\<close> is a stable sort by the comparator, whose NaN results count
  as 0 (SortCompare). It is modelled by a stable insertion sort: for a comparator that
  orders the elements consistently, every stable sort returns the same array.
\<close>

definition SortCompare :: "('a \<Rightarrow> 'a \<Rightarrow> int option) \<Rightarrow> 'a \<Rightarrow> 'a \<Rightarrow> int" where
  "SortCompare comparefn x y = (case comparefn x y of None \<Rightarrow> 0 | Some v \<Rightarrow> v)"

fun insertSorted :: "('a \<Rightarrow> 'a \<Rightarrow> int option) \<Rightarrow> 'a \<Rightarrow> 'a list \<Rightarrow> 'a list" where
  "insertSorted comparefn x [] = [x]"
| "insertSorted comparefn x (y # ys) =
     (if SortCompare comparefn x y \<le> 0 then x # y # ys else y # insertSorted comparefn x ys)"

definition arraySort :: "('a \<Rightarrow> 'a \<Rightarrow> int option) \<Rightarrow> 'a list \<Rightarrow> 'a list" where
  "arraySort comparefn xs = foldr (insertSorted comparefn) xs []"

definition sortTodos :: "(jsstring \<Rightarrow> int option) \<Rightarrow> Todo list \<Rightarrow> SortOption \<Rightarrow> Todo list" where
  "sortTodos getTime todos sortBy = arraySort (compareTodos getTime sortBy) todos"


section \<open>Mutations as data, and what a trace records\<close>

datatype mutation =
    Add CreateTodoInput jsstring jsstring int
  | Update UpdateTodoInput
  | Delete jsstring
  | Toggle jsstring
  | Reorder jsstring jsstring

fun mutate :: "mutation \<Rightarrow> Store \<Rightarrow> Store" where
  "mutate (Add input uuid nowISO nowMs) s = snd (addTodo input uuid nowISO nowMs s)"
| "mutate (Update input) s = updateTodo input s"
| "mutate (Delete i) s = deleteTodo i s"
| "mutate (Toggle i) s = toggleTodo i s"
| "mutate (Reorder activeId overId) s = reorderTodos activeId overId s"

fun writesOf :: "event list \<Rightarrow> (jsstring \<times> jsstring) list" where
  "writesOf [] = []"
| "writesOf (SetItem k v # es) = (k, v) # writesOf es"
| "writesOf (e # es) = writesOf es"

fun callsOf :: "event list \<Rightarrow> listener list" where
  "callsOf [] = []"
| "callsOf (Call l # es) = l # callsOf es"
| "callsOf (e # es) = callsOf es"

fun errorsOf :: "event list \<Rightarrow> error list" where
  "errorsOf [] = []"
| "errorsOf (ConsoleError m e # es) = e # errorsOf es"
| "errorsOf (e # es) = errorsOf es"

text \<open>What an operation added to the trace: the writes, the listener calls, the logged errors.\<close>

definition newWrites :: "Store \<Rightarrow> Store \<Rightarrow> (jsstring \<times> jsstring) list" where
  "newWrites before after = drop (length (writesOf (trace before))) (writesOf (trace after))"

definition newCalls :: "Store \<Rightarrow> Store \<Rightarrow> listener list" where
  "newCalls before after = drop (length (callsOf (trace before))) (callsOf (trace after))"

definition newErrors :: "Store \<Rightarrow> Store \<Rightarrow> error list" where
  "newErrors before after = drop (length (errorsOf (trace before))) (errorsOf (trace after))"

section \<open>Reordering and fresh ids, in the words of the specification\<close>

text \<open>The position of the first item with a given id.\<close>

definition indexOfId :: "jsstring \<Rightarrow> Todo list \<Rightarrow> nat" where
  "indexOfId i xs = length (takeWhile (\<lambda>t. id' t \<noteq> i) xs)"

text \<open>
  List-splice semantics: remove the element at one index, then insert it at another
  index of what is left.
\<close>

definition moveItem :: "nat \<Rightarrow> nat \<Rightarrow> 'a list \<Rightarrow> 'a list" where
  "moveItem from to xs =
     (let moved = xs ! from;
          without = take from xs @ drop (Suc from) xs
      in take to without @ [moved] @ drop to without)"

text \<open>
  A run of mutations in which every create draws an id that no item of the collection
  has at that moment.
\<close>

fun freshIds :: "mutation list \<Rightarrow> Store \<Rightarrow> bool" where
  "freshIds [] s = True"
| "freshIds (m # ms) s =
     ((case m of Add input uuid nowISO nowMs \<Rightarrow> uuid \<notin> set (map id' (todosCache s)) | _ \<Rightarrow> True)
      \<and> freshIds ms (mutate m s))"

section \<open>Storage that accepts or refuses a write\<close>

text \<open>
  The same store with a storage that exists and accepts every write, and the test that
  the write of a list into the store's own storage raises.
\<close>

definition acceptingStorage :: "Store \<Rightarrow> Store" where
  "acceptingStorage s = s\<lparr>window := True, accepts := (\<lambda>k v. True)\<rparr>"

definition saveFails :: "Store \<Rightarrow> Todo list \<Rightarrow> bool" where
  "saveFails s todos \<longleftrightarrow> \<not> window s \<or> \<not> accepts s STORAGE_KEY (JSON_stringify todos)"

section \<open>Due dates and sort keys\<close>

text \<open>
  An item has a due date when the test \<open>!todo.dueDate\<close> of the comparator fails: the
  field is neither \<open>null\<close> nor the empty string. Its due time is the time value of
  that string.
\<close>

definition hasDueDate :: "Todo \<Rightarrow> bool" where
  "hasDueDate t \<longleftrightarrow> \<not> falsy (dueDate t)"

definition dueTime :: "(jsstring \<Rightarrow> int option) \<Rightarrow> Todo \<Rightarrow> int option" where
  "dueTime getTime t = timeOf getTime (dueDate t)"

text \<open>Every due date of the list is a date: its string has a time value.\<close>

definition validDueDates :: "(jsstring \<Rightarrow> int option) \<Rightarrow> Todo list \<Rightarrow> bool" where
  "validDueDates getTime xs = list_all (\<lambda>t. falsy (dueDate t) \<or> dueTime getTime t \<noteq> None) xs"

text \<open>Chronological order of two items that have due times.\<close>

definition notLater :: "(jsstring \<Rightarrow> int option) \<Rightarrow> Todo \<Rightarrow> Todo \<Rightarrow> bool" where
  "notLater getTime a b =
     (case (dueTime getTime a, dueTime getTime b) of (Some x, Some y) \<Rightarrow> x \<le> y | _ \<Rightarrow> False)"

text \<open>
  Sort keys that order the items as the comparators do: items with a due date by their
  time, before all items without one; and the rank of the priority.
\<close>

definition dueKey :: "(jsstring \<Rightarrow> int option) \<Rightarrow> Todo \<Rightarrow> bool \<times> int" where
  "dueKey getTime t =
     (if falsy (dueDate t) then (True, 0)
      else (False, case dueTime getTime t of None \<Rightarrow> 0 | Some v \<Rightarrow> v))"

definition priorityRank :: "Todo \<Rightarrow> int" where
  "priorityRank t = PRIORITY_ORDER (priority t)"

section \<open>Notions for the round trip through storage\<close>

text \<open>A parse result with a string put in front of what was read.\<close>

definition prepend :: "jsstring \<Rightarrow> jsstring parsed \<Rightarrow> jsstring parsed" where
  "prepend s r = (case r of Inl e \<Rightarrow> Inl e | Inr (x, rest) \<Rightarrow> Inr (s @ x, rest))"

text \<open>What may follow a number literal: nothing that continues it.\<close>

definition endsNumber :: "jsstring \<Rightarrow> bool" where
  "endsNumber rest =
     (case rest of [] \<Rightarrow> True | c # cs \<Rightarrow> \<not> isDigit c \<and> c \<noteq> 0x2E \<and> c \<noteq> 0x65 \<and> c \<noteq> 0x45)"

text \<open>
  The values without structure, and an object of such values under distinct keys, with
  a bound on the fuel its parse takes.
\<close>

fun atomic :: "json \<Rightarrow> bool" where
  "atomic JNull = True"
| "atomic (JBool b) = True"
| "atomic (JNumber i) = isSafeInteger i"
| "atomic (JString s) = True"
| "atomic (JArray vs) = False"
| "atomic (JObject ms) = False"

definition flatObject :: "nat \<Rightarrow> json \<Rightarrow> bool" where
  "flatObject b v =
     (case v of
        JObject ms \<Rightarrow> ms \<noteq> [] \<and> list_all (\<lambda>m. atomic (snd m)) ms \<and> distinct (map fst ms)
                      \<and> length ms + 2 \<le> b
      | _ \<Rightarrow> False)"

definition renderMember :: "jsstring \<times> json \<Rightarrow> jsstring" where
  "renderMember m = QuoteJSONString (fst m) @ str '':'' @ serialize (snd m)"

section \<open>Example values\<close>

definition exampleTodo :: Todo where
  "exampleTodo =
     \<lparr>id' = str ''a1'', title = str ''Buy milk'', completed = False, dueDate = None,
      category = Some shopping, priority = high,
      createdAt = str ''2024-05-01T10:00:00.000Z'', order = 1714557600000\<rparr>"

definition exampleStore :: Store where
  "exampleStore =
     \<lparr>window = True, todosCache = [exampleTodo], listeners = [1, 2],
      localStorage = Map.empty, accepts = (\<lambda>k v. True), trace = []\<rparr>"

text \<open>A store whose storage is full: it refuses every write.\<close>

definition fullStore :: Store where
  "fullStore = exampleStore\<lparr>accepts := (\<lambda>k v. False)\<rparr>"

definition blankForm :: AddTodoFormState where
  "blankForm =
     \<lparr>AddTodoFormState.title = str ''  '', dueDate = None, category = None, priority = low\<rparr>"

definition teaForm :: AddTodoFormState where
  "teaForm =
     \<lparr>AddTodoFormState.title = str '' Tea '', dueDate = None, category = Some shopping,
      priority = low\<rparr>"

definition teaInput :: CreateTodoInput where
  "teaInput =
     \<lparr>CreateTodoInput.title = str ''Tea'', dueDate = Undefined, category = Undefined,
      priority = Undefined\<rparr>"

definition threeStore :: Store where
  "threeStore =
     exampleStore\<lparr>todosCache :=
       [exampleTodo,
        exampleTodo\<lparr>id' := str ''b2'', title := str ''Tea'', order := 1714557600001\<rparr>,
        exampleTodo\<lparr>id' := str ''c3'', title := str ''Jam'', order := 1714557600002\<rparr>]\<rparr>"

definition emptyStore :: Store where
  "emptyStore = exampleStore\<lparr>todosCache := []\<rparr>"

definition exampleRun :: "mutation list" where
  "exampleRun =
     [Add teaInput (str ''a1'') (str ''2024-05-02T09:00:00.000Z'') 1714640400000,
      Add teaInput (str ''b2'') (str ''2024-05-02T09:00:01.000Z'') 1714640401000,
      Toggle (str ''a1''),
      Add teaInput (str ''c3'') (str ''2024-05-02T09:00:02.000Z'') 1714640402000,
      Delete (str ''b2''),
      Update \<lparr>UpdateTodoInput.id' = str ''c3'', title = Defined (str ''Jam''), dueDate = Undefined,
         category = Undefined, priority = Defined high, completed = Undefined\<rparr>,
      Add teaInput (str ''b2'') (str ''2024-05-02T09:00:03.000Z'') 1714640403000]"

definition rankedTodos :: "Todo list" where
  "rankedTodos =
     [exampleTodo\<lparr>id' := str ''l1'', priority := low\<rparr>,
      exampleTodo\<lparr>id' := str ''h1''\<rparr>,
      exampleTodo\<lparr>id' := str ''m1'', priority := medium\<rparr>,
      exampleTodo\<lparr>id' := str ''l2'', priority := low\<rparr>,
      exampleTodo\<lparr>id' := str ''h2''\<rparr>]"

text \<open>The time values of three ISO date strings.\<close>

definition exampleGetTime :: "jsstring \<Rightarrow> int option" where
  "exampleGetTime s =
     map_of [(str ''2024-05-01T10:00:00.000Z'', 1714557600000),
             (str ''2024-05-03T10:00:00.000Z'', 1714730400000),
             (str ''2024-06-01T00:00:00.000Z'', 1717200000000)] s"

definition datedTodos :: "Todo list" where
  "datedTodos =
     [exampleTodo\<lparr>id' := str ''n1''\<rparr>,
      exampleTodo\<lparr>id' := str ''d1'', dueDate := Some (str ''2024-06-01T00:00:00.000Z'')\<rparr>,
      exampleTodo\<lparr>id' := str ''n2'', dueDate := Some []\<rparr>,
      exampleTodo\<lparr>id' := str ''d2'', dueDate := Some (str ''2024-05-01T10:00:00.000Z'')\<rparr>,
      exampleTodo\<lparr>id' := str ''d3'', dueDate := Some (str ''2024-05-03T10:00:00.000Z'')\<rparr>]"

text \<open>A list in which one due date, \<open>tomorrow\<close>, is a string that is no date.\<close>

definition strayTodos :: "Todo list" where
  "strayTodos =
     [exampleTodo\<lparr>id' := str ''d1'', dueDate := Some (str ''2024-06-01T00:00:00.000Z'')\<rparr>,
      exampleTodo\<lparr>id' := str ''x1'', dueDate := Some (str ''tomorrow'')\<rparr>,
      exampleTodo\<lparr>id' := str ''d2'', dueDate := Some (str ''2024-05-01T10:00:00.000Z'')\<rparr>]"

section \<open>The store: persisting and notifying\<close>

lemma fold_callListener: "fold callListener ls s = s\<lparr>trace := trace s @ map Call ls\<rparr>"
  by (induction ls arbitrary: s) (simp_all add: callListener_def)

lemma emitChange_eq: "emitChange s = s\<lparr>trace := trace s @ map Call (listeners s)\<rparr>"
  by (simp add: emitChange_def fold_callListener)

text \<open>\<open>persistToStorage\<close> in one equation: the cache, the storage and the trace afterwards.\<close>

lemma persistToStorage_eq:
  "persistToStorage todos s =
     s\<lparr>todosCache := todos,
       localStorage :=
         (if window s \<and> accepts s STORAGE_KEY (JSON_stringify todos)
          then (localStorage s)(STORAGE_KEY \<mapsto> JSON_stringify todos) else localStorage s),
       trace := trace s
         @ (if window s then [SetItem STORAGE_KEY (JSON_stringify todos)] else [])
         @ (if \<not> window s
            then [ConsoleError (str ''Failed to save todos to localStorage:'') ReferenceError]
            else if accepts s STORAGE_KEY (JSON_stringify todos) then []
            else [ConsoleError (str ''Failed to save todos to localStorage:'') QuotaExceededError])
         @ map Call (listeners s)\<rparr>"
  by (simp add: persistToStorage_def setItem_def emitChange_eq console_error_def Let_def)

lemma todosCache_persistToStorage [simp]: "todosCache (persistToStorage todos s) = todos"
  by (simp add: persistToStorage_eq)

lemma listeners_persistToStorage [simp]: "listeners (persistToStorage todos s) = listeners s"
  by (simp add: persistToStorage_eq)

lemma writesOf_append [simp]: "writesOf (xs @ ys) = writesOf xs @ writesOf ys"
  by (induction xs rule: writesOf.induct) simp_all

lemma callsOf_append [simp]: "callsOf (xs @ ys) = callsOf xs @ callsOf ys"
  by (induction xs rule: callsOf.induct) simp_all

lemma errorsOf_append [simp]: "errorsOf (xs @ ys) = errorsOf xs @ errorsOf ys"
  by (induction xs rule: errorsOf.induct) simp_all

lemma writesOf_calls [simp]: "writesOf (map Call ls) = []"
  by (induction ls) simp_all

lemma errorsOf_calls [simp]: "errorsOf (map Call ls) = []"
  by (induction ls) simp_all

lemma callsOf_calls [simp]: "callsOf (map Call ls) = ls"
  by (induction ls) simp_all

lemma newWrites_persistToStorage:
  "window s \<Longrightarrow> newWrites s (persistToStorage todos s) = [(STORAGE_KEY, JSON_stringify todos)]"
  by (simp add: newWrites_def persistToStorage_eq)

lemma newCalls_persistToStorage: "newCalls s (persistToStorage todos s) = listeners s"
  by (simp add: newCalls_def persistToStorage_eq)

lemma count_list_distinct:
  "distinct xs \<Longrightarrow> count_list xs l = (if l \<in> set xs then 1 else 0)"
  by (induction xs) auto

section \<open>Operations on an id that is not in the collection\<close>

lemma map_absent_id:
  "i \<notin> id' ` set xs \<Longrightarrow> map (\<lambda>todo. if id' todo = i then f todo else todo) xs = xs"
  by (induction xs) auto

lemma filter_absent_id: "i \<notin> id' ` set xs \<Longrightarrow> filter (\<lambda>todo. id' todo \<noteq> i) xs = xs"
  by (induction xs) auto

text \<open>
  Claim C4. When no item of the collection has the id, \<open>updateTodo\<close>, \<open>deleteTodo\<close> and
  \<open>toggleTodo\<close> each leave the snapshot equal, element by element, to what it was. None of
  them raises: each is a total function of the store, and the one call in them that can
  raise, \<open>localStorage.setItem\<close>, is caught inside \<open>persistToStorage\<close>; the statement holds
  for every store, also one whose storage refuses the write.
\<close>

theorem absent_id_leaves_collection:
  assumes "i \<notin> id' ` set (todosCache s)" and "UpdateTodoInput.id' input = i"
  shows "getSnapshot (updateTodo input s) = getSnapshot s
       \<and> getSnapshot (deleteTodo i s) = getSnapshot s
       \<and> getSnapshot (toggleTodo i s) = getSnapshot s"
  using assms
  by (simp add: getSnapshot_def updateTodo_def deleteTodo_def toggleTodo_def
      map_absent_id filter_absent_id)

theorem absent_id_leaves_collection_witness:
  "str ''zz'' \<notin> id' ` set (todosCache exampleStore)
   \<and> getSnapshot (updateTodo \<lparr>UpdateTodoInput.id' = str ''zz'', title = Defined (str ''x''),
         dueDate = Undefined, category = Undefined, priority = Undefined,
         completed = Defined True\<rparr> exampleStore) = [exampleTodo]
   \<and> getSnapshot (deleteTodo (str ''zz'') exampleStore) = [exampleTodo]
   \<and> getSnapshot (toggleTodo (str ''zz'') exampleStore) = [exampleTodo]"
  using absent_id_leaves_collection [of "str ''zz''" exampleStore
      "\<lparr>UpdateTodoInput.id' = str ''zz'', title = Defined (str ''x''), dueDate = Undefined,
         category = Undefined, priority = Undefined, completed = Defined True\<rparr>"]
  by (simp add: exampleStore_def exampleTodo_def getSnapshot_def str_def)

text \<open>
  Claim C10. With an id that no item has, \<open>updateTodo\<close>, \<open>deleteTodo\<close> and \<open>toggleTodo\<close>
  leave the collection as it was and still call \<open>localStorage.setItem\<close> once, with the
  storage key and the serialized collection, and call every registered listener exactly
  once. The listeners are a \<open>Set\<close>, so no listener is registered twice; the storage is the
  browser's (\<open>window\<close> exists), where the operations run.
\<close>

theorem absent_id_still_writes_and_notifies:
  assumes "i \<notin> id' ` set (todosCache s)" and "UpdateTodoInput.id' input = i"
    and "m = Update input \<or> m = Delete i \<or> m = Toggle i"
    and "window s" and "distinct (listeners s)"
  shows "todosCache (mutate m s) = todosCache s
       \<and> newWrites s (mutate m s) = [(STORAGE_KEY, JSON_stringify (todosCache s))]
       \<and> (\<forall>l. count_list (newCalls s (mutate m s)) l = (if l \<in> set (listeners s) then 1 else 0))"
proof -
  from assms(1-3) obtain todos
    where m: "mutate m s = persistToStorage todos s" and t: "todos = todosCache s"
    by (auto simp: updateTodo_def deleteTodo_def toggleTodo_def map_absent_id filter_absent_id)
  show ?thesis
    using assms(4,5)
    by (simp add: m t newWrites_persistToStorage newCalls_persistToStorage count_list_distinct)
qed

theorem absent_id_still_writes_and_notifies_witness:
  "str ''zz'' \<notin> id' ` set (todosCache exampleStore) \<and> window exampleStore
   \<and> distinct (listeners exampleStore)
   \<and> todosCache (mutate (Delete (str ''zz'')) exampleStore) = [exampleTodo]
   \<and> newWrites exampleStore (mutate (Delete (str ''zz'')) exampleStore)
        = [(STORAGE_KEY, JSON_stringify [exampleTodo])]
   \<and> count_list (newCalls exampleStore (mutate (Delete (str ''zz'')) exampleStore)) 1 = 1
   \<and> count_list (newCalls exampleStore (mutate (Delete (str ''zz'')) exampleStore)) 2 = 1"
  using absent_id_still_writes_and_notifies [of "str ''zz''" exampleStore
      "\<lparr>UpdateTodoInput.id' = str ''zz'', title = Undefined, dueDate = Undefined,
         category = Undefined, priority = Undefined, completed = Undefined\<rparr>"
      "Delete (str ''zz'')"]
  by (simp add: exampleStore_def exampleTodo_def str_def)

section \<open>A write that fails\<close>

lemma newErrors_persistToStorage:
  "saveFails s todos \<Longrightarrow>
   newErrors s (persistToStorage todos s) = [if window s then QuotaExceededError else ReferenceError]"
  by (auto simp add: newErrors_def persistToStorage_eq saveFails_def)

lemma localStorage_persistToStorage_fails:
  "saveFails s todos \<Longrightarrow> localStorage (persistToStorage todos s) = localStorage s"
  by (auto simp add: persistToStorage_eq saveFails_def)

lemma acceptingStorage_simps [simp]:
  "todosCache (acceptingStorage s) = todosCache s"
  "listeners (acceptingStorage s) = listeners s"
  "trace (acceptingStorage s) = trace s"
  "window (acceptingStorage s)"
  by (simp_all add: acceptingStorage_def)

text \<open>
  Every operation either returns the store as it is (a reorder with an unknown id) or
  ends in \<open>persistToStorage\<close> with a list it computed from the cache alone.
\<close>

lemma mutate_cases:
  "(mutate m s = s \<and> mutate m (acceptingStorage s) = acceptingStorage s)
   \<or> (\<exists>todos. mutate m s = persistToStorage todos s
         \<and> mutate m (acceptingStorage s) = persistToStorage todos (acceptingStorage s))"
proof (cases m)
  case (Reorder a b)
  then show ?thesis
    by (auto simp add: reorderTodos_def Let_def split: prod.splits list.splits)
qed (auto simp add: addTodo_def updateTodo_def deleteTodo_def toggleTodo_def Let_def)

text \<open>
  Claim C8. Take any of the five mutations and a store whose storage raises on the write
  of the new collection. The cache afterwards holds the same collection as after the
  same mutation on a storage that accepts the write, so nothing is rolled back; the
  listeners are called just as in the successful run; the storage keeps its old
  contents; and the failure shows only as one \<open>console.error\<close> per attempted write. The
  operation returns a store like any other: the exception does not reach the caller.
\<close>

theorem failed_save_keeps_mutation:
  assumes "saveFails s (todosCache (mutate m (acceptingStorage s)))"
  shows "todosCache (mutate m s) = todosCache (mutate m (acceptingStorage s))
       \<and> newCalls s (mutate m s) = newCalls (acceptingStorage s) (mutate m (acceptingStorage s))
       \<and> localStorage (mutate m s) = localStorage s
       \<and> length (newErrors s (mutate m s))
           = length (newWrites (acceptingStorage s) (mutate m (acceptingStorage s)))"
proof -
  consider (noop) "mutate m s = s" "mutate m (acceptingStorage s) = acceptingStorage s"
    | (persist) todos where "mutate m s = persistToStorage todos s"
        "mutate m (acceptingStorage s) = persistToStorage todos (acceptingStorage s)"
    using mutate_cases [of m s] by blast
  then show ?thesis
  proof cases
    case noop
    then show ?thesis by (simp add: newCalls_def newErrors_def newWrites_def)
  next
    case persist
    with assms have "saveFails s todos" by simp
    with persist show ?thesis
      by (simp add: newCalls_persistToStorage newErrors_persistToStorage
          localStorage_persistToStorage_fails newWrites_persistToStorage)
  qed
qed

theorem failed_save_keeps_mutation_witness:
  "saveFails fullStore (todosCache (mutate (Toggle (str ''a1'')) (acceptingStorage fullStore)))
   \<and> todosCache (mutate (Toggle (str ''a1'')) fullStore) = [exampleTodo\<lparr>completed := True\<rparr>]
   \<and> newCalls fullStore (mutate (Toggle (str ''a1'')) fullStore) = [1, 2]
   \<and> localStorage (mutate (Toggle (str ''a1'')) fullStore) = localStorage fullStore
   \<and> newErrors fullStore (mutate (Toggle (str ''a1'')) fullStore) = [QuotaExceededError]"
  using failed_save_keeps_mutation [of fullStore "Toggle (str ''a1'')"]
  by (simp add: fullStore_def exampleStore_def exampleTodo_def saveFails_def acceptingStorage_def
      toggleTodo_def str_def persistToStorage_eq newCalls_def newErrors_def Let_def)

section \<open>Creating an item\<close>

lemma trim_idem: "trim (trim s) = trim s"
proof -
  define a where "a = dropWhile isWhiteSpace s"
  define b where "b = dropWhile isWhiteSpace (rev a)"
  have t: "trim s = rev b" by (simp add: trim_def a_def b_def)
  show ?thesis
  proof (cases "b = []")
    case True
    then show ?thesis unfolding t by (simp add: trim_def)
  next
    case False
    then have hb: "\<not> isWhiteSpace (hd b)" unfolding b_def by (metis hd_dropWhile)
    have "rev a = takeWhile isWhiteSpace (rev a) @ b" by (simp add: b_def)
    then have "a = rev b @ rev (takeWhile isWhiteSpace (rev a))"
      by (metis rev_append rev_rev_ident)
    with False have ha: "hd a = hd (rev b)" "a \<noteq> []"
      by (metis hd_append2 rev_is_Nil_conv, metis append_is_Nil_conv rev_is_Nil_conv)
    then have "\<not> isWhiteSpace (hd a)" unfolding a_def by (metis hd_dropWhile)
    with ha False have "dropWhile isWhiteSpace (rev b) = rev b"
      by (metis dropWhile_eq_self_iff rev_is_Nil_conv)
    moreover from hb False have "dropWhile isWhiteSpace b = b"
      by (metis dropWhile_eq_self_iff)
    ultimately show ?thesis unfolding t by (simp add: trim_def)
  qed
qed

text \<open>
  Claim C1, as stated, fails: \<open>addTodo\<close> has no test of the title. Called with a title of
  two spaces, whose trimmed form is empty, it appends an item and the snapshot changes.
\<close>

theorem addTodo_blank_title_counterexample:
  "trim (str ''  '') = []
   \<and> getSnapshot (snd (addTodo \<lparr>CreateTodoInput.title = str ''  '', dueDate = Undefined,
         category = Undefined, priority = Undefined\<rparr>
         (str ''b2'') (str ''2024-05-02T09:00:00.000Z'') 1714640400000 exampleStore))
      \<noteq> getSnapshot exampleStore"
  by (simp add: trim_def isWhiteSpace_def str_def addTodo_def getSnapshot_def exampleStore_def Let_def)

text \<open>
  Claim C1, amended. The test is in the form's submit handler, the caller of \<open>addTodo\<close>:
  when the trimmed title is empty, \<open>handleSubmit\<close> returns with the form and the store as
  they were; otherwise it appends one item, whose title is the trimmed title and is not
  blank. \<open>addTodo\<close> itself appends the item with the title it is given, whatever it is.
\<close>

theorem handleSubmit_guards_blank_title:
  "(trim (AddTodoFormState.title form) = [] \<longrightarrow> handleSubmit form uuid nowISO nowMs s = (form, s))
   \<and> (trim (AddTodoFormState.title form) \<noteq> [] \<longrightarrow>
        (\<exists>t. getSnapshot (snd (handleSubmit form uuid nowISO nowMs s)) = getSnapshot s @ [t]
            \<and> title t = trim (AddTodoFormState.title form) \<and> trim (title t) \<noteq> []))
   \<and> getSnapshot (snd (addTodo input uuid nowISO nowMs s))
        = getSnapshot s @ [fst (addTodo input uuid nowISO nowMs s)]
   \<and> title (fst (addTodo input uuid nowISO nowMs s)) = CreateTodoInput.title input"
  by (simp add: handleSubmit_def addTodo_def getSnapshot_def trim_idem Let_def)

theorem handleSubmit_guards_blank_title_witness:
  "trim (AddTodoFormState.title blankForm) = []
   \<and> handleSubmit blankForm (str ''b2'') (str ''2024-05-02T09:00:00.000Z'') 1714640400000 exampleStore
       = (blankForm, exampleStore)
   \<and> trim (AddTodoFormState.title teaForm) = str ''Tea''
   \<and> map title (getSnapshot (snd (handleSubmit teaForm (str ''b2'') (str ''2024-05-02T09:00:00.000Z'')
         1714640400000 exampleStore))) = [str ''Buy milk'', str ''Tea'']"
  using handleSubmit_guards_blank_title [of blankForm "str ''b2''" "str ''2024-05-02T09:00:00.000Z''"
      1714640400000 exampleStore]
    handleSubmit_guards_blank_title [of teaForm "str ''b2''" "str ''2024-05-02T09:00:00.000Z''"
      1714640400000 exampleStore]
  by (simp add: trim_def isWhiteSpace_def str_def blankForm_def teaForm_def exampleStore_def
      exampleTodo_def getSnapshot_def handleSubmit_def addTodo_def Let_def)

text \<open>
  Claim C3, as stated, fails on the order value: it is \<open>Date.now()\<close>, and an item created
  in the same millisecond as an item of the collection gets the same order value, not a
  greater one.
\<close>

theorem addTodo_same_millisecond_counterexample:
  "CreateTodoInput.title teaInput \<noteq> []
   \<and> exampleTodo \<in> set (getSnapshot exampleStore)
   \<and> \<not> order exampleTodo
         < order (fst (addTodo teaInput (str ''b2'') (str ''2024-05-01T10:00:00.000Z'')
                   1714557600000 exampleStore))"
  by (simp add: str_def addTodo_def getSnapshot_def exampleStore_def exampleTodo_def teaInput_def
      Let_def)

text \<open>
  Claim C3, amended. The item \<open>addTodo\<close> returns has \<open>completed = false\<close>, the priority
  supplied or \<open>medium\<close>, and the clock reading \<open>Date.now()\<close> as its order value, which is
  greater than every order value in the collection whenever all of those are below the
  clock reading; the item is appended as the last element of the collection. This holds
  for every title.
\<close>

theorem addTodo_appends_new_item:
  "completed (fst (addTodo input uuid nowISO nowMs s)) = False
   \<and> priority (fst (addTodo input uuid nowISO nowMs s))
       = (case CreateTodoInput.priority input of Undefined \<Rightarrow> medium | Defined p \<Rightarrow> p)
   \<and> order (fst (addTodo input uuid nowISO nowMs s)) = nowMs
   \<and> ((\<forall>t \<in> set (getSnapshot s). order t < nowMs) \<longrightarrow>
        (\<forall>t \<in> set (getSnapshot s). order t < order (fst (addTodo input uuid nowISO nowMs s))))
   \<and> getSnapshot (snd (addTodo input uuid nowISO nowMs s))
       = getSnapshot s @ [fst (addTodo input uuid nowISO nowMs s)]"
  by (simp add: addTodo_def getSnapshot_def orMedium_def Let_def)

theorem addTodo_appends_new_item_witness:
  "getSnapshot exampleStore = [exampleTodo] \<and> order exampleTodo < 1714640400000
   \<and> order exampleTodo
       < order (fst (addTodo teaInput (str ''b2'') (str ''2024-05-02T09:00:00.000Z'')
                 1714640400000 exampleStore))
   \<and> priority (fst (addTodo teaInput (str ''b2'') (str ''2024-05-02T09:00:00.000Z'')
                 1714640400000 exampleStore)) = medium
   \<and> map id' (getSnapshot (snd (addTodo teaInput (str ''b2'') (str ''2024-05-02T09:00:00.000Z'')
                 1714640400000 exampleStore))) = [str ''a1'', str ''b2'']"
  using addTodo_appends_new_item [of teaInput "str ''b2''" "str ''2024-05-02T09:00:00.000Z''"
      1714640400000 exampleStore]
  by (simp add: str_def addTodo_def getSnapshot_def exampleStore_def exampleTodo_def orMedium_def
      teaInput_def Let_def)

section \<open>Reordering\<close>

lemma findIndexFrom_eq:
  "findIndexFrom k P xs =
     (if \<exists>x \<in> set xs. P x then int (k + length (takeWhile (\<lambda>x. \<not> P x) xs)) else - 1)"
  by (induction xs arbitrary: k) auto

lemma findIndex_id:
  "findIndex (\<lambda>t. id' t = i) xs = (if i \<in> id' ` set xs then int (indexOfId i xs) else - 1)"
  by (auto simp add: findIndex_def findIndexFrom_eq indexOfId_def)

lemma indexOfId_less: "i \<in> id' ` set xs \<Longrightarrow> indexOfId i xs < length xs"
  unfolding indexOfId_def by (induction xs) auto

lemma indexOfId_nth: "i \<in> id' ` set xs \<Longrightarrow> id' (xs ! indexOfId i xs) = i"
  unfolding indexOfId_def by (induction xs) auto

lemma splice_remove:
  "i < length xs \<Longrightarrow> splice (int i) 1 [] xs = ([xs ! i], take i xs @ drop (Suc i) xs)"
  by (simp add: splice_def Let_def min_def max_def take_Suc_conv_app_nth Cons_nth_drop_Suc [symmetric])

lemma splice_insert:
  "j \<le> length ys \<Longrightarrow> splice (int j) 0 [x] ys = ([], take j ys @ [x] @ drop j ys)"
  by (simp add: splice_def Let_def min_def max_def)

lemma length_reindex [simp]: "length (reindex r) = length r"
  by (simp add: reindex_def)

lemma nth_reindex: "k < length r \<Longrightarrow> reindex r ! k = (r ! k)\<lparr>order := int k\<rparr>"
  by (simp add: reindex_def)

lemma map_id_reindex [simp]: "map id' (reindex r) = map id' r"
  by (rule nth_equalityI) (simp_all add: nth_reindex)

lemma length_moveItem: "i < length xs \<Longrightarrow> length (moveItem i j xs) = length xs"
  by (auto simp add: moveItem_def Let_def min_def)

lemma mset_moveItem: "i < length xs \<Longrightarrow> mset (moveItem i j xs) = mset xs"
proof -
  assume i: "i < length xs"
  let ?w = "take i xs @ drop (Suc i) xs"
  have "mset (moveItem i j xs) = mset (take j ?w @ drop j ?w) + {#xs ! i#}"
    by (simp add: moveItem_def Let_def)
  also have "\<dots> = mset ?w + {#xs ! i#}" by (simp only: append_take_drop_id)
  also have "\<dots> = mset (take i xs @ xs ! i # drop (Suc i) xs)" by simp
  also have "\<dots> = mset xs" using i by (simp only: id_take_nth_drop [symmetric])
  finally show ?thesis .
qed

lemma reorderTodos_eq:
  "reorderTodos a b s =
     (if a \<in> id' ` set (todosCache s) \<and> b \<in> id' ` set (todosCache s)
      then persistToStorage
             (reindex (moveItem (indexOfId a (todosCache s)) (indexOfId b (todosCache s)) (todosCache s))) s
      else s)"
proof (cases "a \<in> id' ` set (todosCache s) \<and> b \<in> id' ` set (todosCache s)")
  case True
  then have i: "indexOfId a (todosCache s) < length (todosCache s)"
    and j: "indexOfId b (todosCache s) < length (todosCache s)"
    by (simp_all add: indexOfId_less)
  from i j have j': "indexOfId b (todosCache s)
      \<le> length (take (indexOfId a (todosCache s)) (todosCache s) @ drop (Suc (indexOfId a (todosCache s))) (todosCache s))"
    by simp
  show ?thesis
    using True by (simp add: reorderTodos_def findIndex_id splice_remove [OF i] splice_insert [OF j'] moveItem_def Let_def)
next
  case False
  then show ?thesis by (auto simp add: reorderTodos_def findIndex_id Let_def)
qed

lemma nth_moveItem_target:
  "i < length xs \<Longrightarrow> j < length xs \<Longrightarrow> moveItem i j xs ! j = xs ! i"
  by (simp add: moveItem_def Let_def nth_append min_def)

text \<open>
  Claim C2. When both ids are in the collection, \<open>reorderTodos\<close> leaves a collection of
  the same length whose element at every position is the element that removing the moved
  item and inserting it at the target's original index puts there, with the position as
  its order value; in particular the moved item stands where the target stood. When one
  of the ids is missing, the store is returned as it is.
\<close>

theorem reorderTodos_moves_and_reindexes:
  "(a \<in> id' ` set (getSnapshot s) \<and> b \<in> id' ` set (getSnapshot s) \<longrightarrow>
      length (getSnapshot (reorderTodos a b s)) = length (getSnapshot s)
      \<and> (\<forall>k < length (getSnapshot s).
            getSnapshot (reorderTodos a b s) ! k
              = (moveItem (indexOfId a (getSnapshot s)) (indexOfId b (getSnapshot s)) (getSnapshot s) ! k)
                  \<lparr>order := int k\<rparr>
            \<and> order (getSnapshot (reorderTodos a b s) ! k) = int k)
      \<and> getSnapshot (reorderTodos a b s) ! indexOfId b (getSnapshot s)
          = (getSnapshot s ! indexOfId a (getSnapshot s))\<lparr>order := int (indexOfId b (getSnapshot s))\<rparr>)
   \<and> (a \<notin> id' ` set (getSnapshot s) \<or> b \<notin> id' ` set (getSnapshot s) \<longrightarrow> reorderTodos a b s = s)"
  by (simp add: getSnapshot_def reorderTodos_eq nth_reindex length_moveItem indexOfId_less
      nth_moveItem_target)

theorem reorderTodos_moves_and_reindexes_witness:
  "str ''a1'' \<in> id' ` set (getSnapshot threeStore) \<and> str ''c3'' \<in> id' ` set (getSnapshot threeStore)
   \<and> indexOfId (str ''a1'') (getSnapshot threeStore) = 0
   \<and> indexOfId (str ''c3'') (getSnapshot threeStore) = 2
   \<and> map id' (getSnapshot (reorderTodos (str ''a1'') (str ''c3'') threeStore))
        = [str ''b2'', str ''c3'', str ''a1'']
   \<and> map order (getSnapshot (reorderTodos (str ''a1'') (str ''c3'') threeStore)) = [0, 1, 2]
   \<and> getSnapshot (reorderTodos (str ''a1'') (str ''c3'') threeStore) ! 2 = exampleTodo\<lparr>order := 2\<rparr>
   \<and> reorderTodos (str ''a1'') (str ''zz'') threeStore = threeStore"
  using reorderTodos_moves_and_reindexes [of "str ''a1''" threeStore "str ''c3''"]
    reorderTodos_moves_and_reindexes [of "str ''a1''" threeStore "str ''zz''"]
  by (simp add: threeStore_def exampleStore_def exampleTodo_def getSnapshot_def str_def
      indexOfId_def reorderTodos_def findIndex_def splice_def reindex_def Let_def
      upt_rec [of 0] upt_rec [of "Suc 0"] upt_rec [of 2])

section \<open>Uniqueness of ids\<close>

lemma map_id_applyUpdate:
  "map id' (map (\<lambda>todo. if id' todo = i then applyUpdate input todo else todo) xs) = map id' xs"
  by (induction xs) (simp_all add: applyUpdate_def)

lemma map_id_toggle:
  "map id' (map (\<lambda>todo. if id' todo = i then todo\<lparr>completed := \<not> completed todo\<rparr> else todo) xs) = map id' xs"
  by (induction xs) simp_all

lemma distinct_ids_moveItem:
  assumes "i < length xs" and "distinct (map id' xs)"
  shows "distinct (map id' (moveItem i j xs))"
proof -
  have "mset (map id' (moveItem i j xs)) = mset (map id' xs)"
    using assms(1) by (simp add: mset_moveItem)
  then show ?thesis using assms(2) by (metis mset_eq_imp_distinct_iff)
qed

lemma distinct_ids_mutate:
  assumes "distinct (map id' (todosCache s))"
    and "case m of Add input uuid nowISO nowMs \<Rightarrow> uuid \<notin> set (map id' (todosCache s)) | _ \<Rightarrow> True"
  shows "distinct (map id' (todosCache (mutate m s)))"
proof (cases m)
  case (Add input uuid nowISO nowMs)
  with assms show ?thesis by (simp add: addTodo_def Let_def)
next
  case (Update input)
  with assms show ?thesis by (simp add: updateTodo_def map_id_applyUpdate del: map_map)
next
  case (Delete i)
  with assms show ?thesis by (simp add: deleteTodo_def distinct_map_filter)
next
  case (Toggle i)
  with assms show ?thesis by (simp add: toggleTodo_def map_id_toggle del: map_map)
next
  case (Reorder a b)
  with assms show ?thesis
    by (simp add: reorderTodos_eq distinct_ids_moveItem indexOfId_less)
qed

lemma distinct_ids_fold:
  "distinct (map id' (todosCache s)) \<Longrightarrow> freshIds ms s \<Longrightarrow>
   distinct (map id' (todosCache (fold mutate ms s)))"
proof (induction ms arbitrary: s)
  case Nil
  then show ?case by simp
next
  case (Cons m ms)
  from Cons.prems have "distinct (map id' (todosCache (mutate m s)))"
    by (intro distinct_ids_mutate) simp_all
  moreover from Cons.prems have "freshIds ms (mutate m s)" by simp
  ultimately show ?case using Cons.IH by simp
qed

text \<open>
  Claim C5. Start from an empty collection and apply any finite sequence of creates,
  updates, deletes and toggles (reorders too), each create drawing an id that is not in
  the collection at that moment. Then every id of the resulting snapshot occurs in it
  exactly once.
\<close>

theorem ids_stay_unique:
  assumes "getSnapshot s = []" and "freshIds ms s"
  shows "distinct (map id' (getSnapshot (fold mutate ms s)))
       \<and> (\<forall>t \<in> set (getSnapshot (fold mutate ms s)).
            count_list (map id' (getSnapshot (fold mutate ms s))) (id' t) = 1)"
proof -
  from assms have d: "distinct (map id' (getSnapshot (fold mutate ms s)))"
    unfolding getSnapshot_def by (intro distinct_ids_fold) simp_all
  then show ?thesis by (simp add: count_list_distinct)
qed

theorem ids_stay_unique_witness:
  "getSnapshot emptyStore = [] \<and> freshIds exampleRun emptyStore
   \<and> map id' (getSnapshot (fold mutate exampleRun emptyStore)) = [str ''a1'', str ''c3'', str ''b2'']
   \<and> distinct (map id' (getSnapshot (fold mutate exampleRun emptyStore)))"
  using ids_stay_unique [of emptyStore exampleRun]
  by (simp add: emptyStore_def exampleStore_def exampleRun_def teaInput_def getSnapshot_def str_def
      addTodo_def updateTodo_def deleteTodo_def toggleTodo_def applyUpdate_def Let_def
      orNull_def orMedium_def)


section \<open>Sorting\<close>

text \<open>
  Where the comparator agrees with the order of a key, the sort is the stable sort by
  that key.
\<close>

lemma insertSorted_insort_key:
  "\<forall>y \<in> set ys. (SortCompare cmp x y \<le> 0) = (f x \<le> f y) \<Longrightarrow>
   insertSorted cmp x ys = insort_key f x ys"
  by (induction ys) simp_all

lemma arraySort_sort_key:
  "\<forall>x \<in> set xs. \<forall>y \<in> set xs. (SortCompare cmp x y \<le> 0) = (f x \<le> f y) \<Longrightarrow>
   arraySort cmp xs = sort_key f xs"
proof (induction xs)
  case Nil
  then show ?case by (simp add: arraySort_def)
next
  case (Cons x xs)
  then have "arraySort cmp xs = sort_key f xs" by simp
  moreover from Cons.prems
  have "\<forall>y \<in> set (sort_key f xs). (SortCompare cmp x y \<le> 0) = (f x \<le> f y)" by simp
  ultimately show ?case
    by (simp add: arraySort_def insertSorted_insort_key)
qed

lemma sorted_split:
  "sorted (map f ys) \<Longrightarrow> \<forall>a \<in> set ys. \<forall>b \<in> set ys. P a \<and> \<not> P b \<longrightarrow> f a < f b \<Longrightarrow>
   ys = filter P ys @ filter (\<lambda>t. \<not> P t) ys"
proof (induction ys)
  case Nil
  then show ?case by simp
next
  case (Cons y ys)
  then have IH: "ys = filter P ys @ filter (\<lambda>t. \<not> P t) ys" by simp
  show ?case
  proof (cases "P y")
    case True
    with IH show ?thesis by simp
  next
    case False
    have "\<forall>b \<in> set ys. \<not> P b"
    proof
      fix b assume b: "b \<in> set ys"
      show "\<not> P b"
      proof
        assume "P b"
        with False b Cons.prems(2) have "f b < f y" by simp
        moreover from b Cons.prems(1) have "f y \<le> f b" by simp
        ultimately show False by simp
      qed
    qed
    then have "filter P ys = []" "filter (\<lambda>t. \<not> P t) ys = ys" by (simp_all add: filter_empty_conv filter_id_conv)
    with False show ?thesis by simp
  qed
qed

lemma sortTodos_priority_sort_key:
  "sortTodos getTime xs Sort_priority = sort_key priorityRank xs"
  unfolding sortTodos_def
  by (rule arraySort_sort_key) (simp add: SortCompare_def compareTodos_def priorityRank_def)

lemma priorityRank_eq: "(priorityRank t = PRIORITY_ORDER p) = (priority t = p)"
  by (cases p; cases "priority t") (simp_all add: priorityRank_def PRIORITY_ORDER_def)

lemma filter_priority_sorted:
  "filter (\<lambda>t. priority t = p) (sort_key priorityRank xs) = filter (\<lambda>t. priority t = p) xs"
  using sort_key_stable [of priorityRank "PRIORITY_ORDER p" xs] by (simp add: priorityRank_eq)

lemma not_high: "(priority t \<noteq> high) = (priority t = medium \<or> priority t = low)"
  by (cases "priority t") simp_all

text \<open>
  Claim C7. Sorting by priority returns the high-priority items of the input, then the
  medium-priority ones, then the low-priority ones, each group in its input order.
\<close>

theorem sortTodos_priority_tiers:
  "sortTodos getTime xs Sort_priority
     = filter (\<lambda>t. priority t = high) xs @ filter (\<lambda>t. priority t = medium) xs
       @ filter (\<lambda>t. priority t = low) xs"
proof -
  let ?ys = "sort_key priorityRank xs"
  let ?zs = "filter (\<lambda>t. priority t \<noteq> high) ?ys"
  have s: "sorted (map priorityRank ?ys)" by simp
  have "?ys = filter (\<lambda>t. priority t = high) ?ys @ ?zs"
    by (rule sorted_split [OF s]) (auto simp: priorityRank_def PRIORITY_ORDER_def split: Priority.splits)
  moreover have "sorted (map priorityRank ?zs)"
    using s by (simp add: sorted_filter)
  then have "?zs = filter (\<lambda>t. priority t = medium) ?zs @ filter (\<lambda>t. priority t \<noteq> medium) ?zs"
    by (rule sorted_split) (auto simp: priorityRank_def PRIORITY_ORDER_def split: Priority.splits)
  moreover have "filter (\<lambda>t. priority t = medium) ?zs = filter (\<lambda>t. priority t = medium) ?ys"
    by (simp, intro filter_cong refl, auto)
  moreover have "filter (\<lambda>t. priority t \<noteq> medium) ?zs = filter (\<lambda>t. priority t = low) ?ys"
    by (auto simp add: not_high intro: filter_cong)
  ultimately have "?ys = filter (\<lambda>t. priority t = high) ?ys @ filter (\<lambda>t. priority t = medium) ?ys
      @ filter (\<lambda>t. priority t = low) ?ys"
    by simp
  then show ?thesis
    by (simp only: sortTodos_priority_sort_key filter_priority_sorted)
qed


theorem sortTodos_priority_tiers_witness:
  "map id' (sortTodos exampleGetTime rankedTodos Sort_priority)
     = [str ''h1'', str ''h2'', str ''m1'', str ''l1'', str ''l2'']"
  using sortTodos_priority_tiers [of exampleGetTime rankedTodos]
  by (simp add: rankedTodos_def exampleTodo_def str_def)

lemma dueKey_le:
  assumes "falsy (dueDate a) \<or> dueTime getTime a \<noteq> None"
    and "falsy (dueDate b) \<or> dueTime getTime b \<noteq> None"
  shows "(SortCompare (compareTodos getTime Sort_dueDate) a b \<le> 0) = (dueKey getTime a \<le> dueKey getTime b)"
  using assms
  by (auto simp add: SortCompare_def compareTodos_def dueKey_def hasDueDate_def dueTime_def
      jsMinus_def less_eq_prod_def split: option.splits)

lemma sortTodos_dueDate_sort_key:
  "validDueDates getTime xs \<Longrightarrow> sortTodos getTime xs Sort_dueDate = sort_key (dueKey getTime) xs"
  unfolding sortTodos_def
  by (rule arraySort_sort_key) (simp add: validDueDates_def list_all_iff dueKey_le)

lemma dueKey_absent: "(dueKey getTime t = (True, 0)) = (\<not> hasDueDate t)"
  by (simp add: dueKey_def hasDueDate_def)

text \<open>
  Claim C6, as stated, fails on a list with a due date that is no date. The comparator
  returns NaN whenever it meets that string, which the sort takes for 0, and the list
  with the due dates 1 June, \<open>tomorrow\<close>, 1 May comes back as it went in: the item due in
  June stands before the item due in May, though both have a due date.
\<close>

theorem sortTodos_dueDate_stray_counterexample:
  "compareTodos exampleGetTime Sort_dueDate (strayTodos ! 0) (strayTodos ! 1) = None
   \<and> compareTodos exampleGetTime Sort_dueDate (strayTodos ! 1) (strayTodos ! 2) = None
   \<and> map id' (sortTodos exampleGetTime strayTodos Sort_dueDate)
       = [str ''d1'', str ''x1'', str ''d2'']
   \<and> hasDueDate (sortTodos exampleGetTime strayTodos Sort_dueDate ! 0)
   \<and> hasDueDate (sortTodos exampleGetTime strayTodos Sort_dueDate ! 2)
   \<and> dueTime exampleGetTime (sortTodos exampleGetTime strayTodos Sort_dueDate ! 0)
       = Some 1717200000000
   \<and> dueTime exampleGetTime (sortTodos exampleGetTime strayTodos Sort_dueDate ! 2)
       = Some 1714557600000
   \<and> \<not> notLater exampleGetTime (sortTodos exampleGetTime strayTodos Sort_dueDate ! 0)
         (sortTodos exampleGetTime strayTodos Sort_dueDate ! 2)"
  by (simp add: sortTodos_def arraySort_def strayTodos_def exampleTodo_def exampleGetTime_def
      str_def SortCompare_def compareTodos_def falsy_def timeOf_def jsMinus_def hasDueDate_def
      dueTime_def notLater_def)

text \<open>
  Claim C6, amended. Take a list in which every due date is a date: each dueDate that is
  neither \<open>null\<close> nor the empty string has a time value. Sorting by due date returns a
  rearrangement of the list in which the items with a due date come first, in ascending
  order of their due times, followed by the items without one, which stand in their
  input order; the comparator returns 0 on two items without a due date.
\<close>

theorem sortTodos_dueDate_order:
  assumes "validDueDates getTime xs"
  shows "mset (sortTodos getTime xs Sort_dueDate) = mset xs
       \<and> sortTodos getTime xs Sort_dueDate
           = filter hasDueDate (sortTodos getTime xs Sort_dueDate)
             @ filter (\<lambda>t. \<not> hasDueDate t) (sortTodos getTime xs Sort_dueDate)
       \<and> sorted_wrt (notLater getTime) (filter hasDueDate (sortTodos getTime xs Sort_dueDate))
       \<and> filter (\<lambda>t. \<not> hasDueDate t) (sortTodos getTime xs Sort_dueDate)
           = filter (\<lambda>t. \<not> hasDueDate t) xs
       \<and> (\<forall>a b. \<not> hasDueDate a \<and> \<not> hasDueDate b \<longrightarrow>
             compareTodos getTime Sort_dueDate a b = Some 0)"
proof -
  let ?ys = "sort_key (dueKey getTime) xs"
  have ys: "sortTodos getTime xs Sort_dueDate = ?ys"
    using assms by (rule sortTodos_dueDate_sort_key)
  have s: "sorted (map (dueKey getTime) ?ys)" by simp
  have perm: "mset ?ys = mset xs" by simp
  have split: "?ys = filter hasDueDate ?ys @ filter (\<lambda>t. \<not> hasDueDate t) ?ys"
    by (rule sorted_split [OF s]) (auto simp add: dueKey_def hasDueDate_def less_prod_def)
  have valid: "\<forall>t \<in> set ?ys. falsy (dueDate t) \<or> dueTime getTime t \<noteq> None"
    using assms by (simp add: validDueDates_def list_all_iff)
  have "sorted_wrt (\<lambda>a b. dueKey getTime a \<le> dueKey getTime b) (filter hasDueDate ?ys)"
    using s by (simp add: sorted_map sorted_wrt_filter)
  then have chron: "sorted_wrt (notLater getTime) (filter hasDueDate ?ys)"
  proof (rule sorted_wrt_mono_rel [rotated])
    fix a b
    assume "a \<in> set (filter hasDueDate ?ys)" "b \<in> set (filter hasDueDate ?ys)"
      and "dueKey getTime a \<le> dueKey getTime b"
    with valid show "notLater getTime a b"
      by (auto simp add: notLater_def dueKey_def hasDueDate_def less_eq_prod_def split: option.splits)
  qed
  have stable: "filter (\<lambda>t. \<not> hasDueDate t) ?ys = filter (\<lambda>t. \<not> hasDueDate t) xs"
    using sort_key_stable [of "dueKey getTime" "(True, 0)" xs] by (simp add: dueKey_absent)
  have eq: "\<forall>a b. \<not> hasDueDate a \<and> \<not> hasDueDate b \<longrightarrow>
             compareTodos getTime Sort_dueDate a b = Some 0"
    by (simp add: compareTodos_def hasDueDate_def)
  from perm split chron stable eq show ?thesis
    unfolding ys by blast
qed

theorem sortTodos_dueDate_order_witness:
  "validDueDates exampleGetTime datedTodos
   \<and> map id' (sortTodos exampleGetTime datedTodos Sort_dueDate)
       = [str ''d2'', str ''d3'', str ''d1'', str ''n1'', str ''n2'']
   \<and> map id' (filter hasDueDate (sortTodos exampleGetTime datedTodos Sort_dueDate))
       = [str ''d2'', str ''d3'', str ''d1'']
   \<and> map id' (filter (\<lambda>t. \<not> hasDueDate t) datedTodos) = [str ''n1'', str ''n2'']"
  using sortTodos_dueDate_order [of exampleGetTime datedTodos]
  by (simp add: sortTodos_def arraySort_def datedTodos_def exampleTodo_def exampleGetTime_def str_def
      SortCompare_def compareTodos_def falsy_def timeOf_def jsMinus_def validDueDates_def
      hasDueDate_def dueTime_def)


section \<open>The round trip through storage\<close>

text \<open>String literals: what QuoteJSONString writes, the parser reads back.\<close>

lemma nat_less_16_cases:
  "d < 16 \<Longrightarrow> d = 0 \<or> d = 1 \<or> d = 2 \<or> d = 3 \<or> d = 4 \<or> d = 5 \<or> d = 6 \<or> d = 7 \<or> d = 8
     \<or> d = 9 \<or> d = 10 \<or> d = 11 \<or> d = 12 \<or> d = 13 \<or> d = 14 \<or> d = (15::nat)"
  by presburger

lemma hexValue_hexDigit:
  assumes "d < 16"
  shows "hexValue (hexDigit d) = Some d"
  using nat_less_16_cases [OF assms] by (elim disjE) (simp_all add: hexValue_def hexDigit_def)

lemma nibbles:
  fixes n :: nat
  shows "4096 * (n div 4096) + 256 * (n div 256 mod 16) + 16 * (n div 16 mod 16) + n mod 16 = n"
proof -
  have "n div 16 div 16 = n div 256" "n div 256 div 16 = n div 4096"
    by (simp_all add: div_mult2_eq)
  then have "n div 16 = 16 * (n div 256) + n div 16 mod 16"
    "n div 256 = 16 * (n div 4096) + n div 256 mod 16"
    by (metis mult_div_mod_eq)+
  moreover have "n = 16 * (n div 16) + n mod 16" by simp
  ultimately show ?thesis by linarith
qed

lemma hex4Value_hex4:
  "hex4 c = [h1, h2, h3, h4] \<Longrightarrow> hex4Value h1 h2 h3 h4 = Some c"
proof -
  assume h: "hex4 c = [h1, h2, h3, h4]"
  define n where "n = unat c"
  have n: "n < 65536" unfolding n_def using unsigned_less [of c, where ?'a = nat] by simp
  have "h1 = hexDigit (n div 4096)" "h2 = hexDigit (n div 256 mod 16)"
    "h3 = hexDigit (n div 16 mod 16)" "h4 = hexDigit (n mod 16)"
    using h by (simp_all add: hex4_def Let_def n_def)
  moreover have "n div 4096 < 16" using n by simp
  moreover have "4096 * (n div 4096) + 256 * (n div 256 mod 16) + 16 * (n div 16 mod 16) + n mod 16 = n"
    by (rule nibbles)
  ultimately have "hex4Value h1 h2 h3 h4 = Some (of_nat n)"
    by (simp add: hex4Value_def hexValue_hexDigit)
  then show ?thesis by (simp add: n_def)
qed

lemma prepend_simps [simp]:
  "prepend [] r = r"
  "prepend a (prepend b r) = prepend (a @ b) r"
  by (auto simp add: prepend_def split: sum.splits)

lemma consChar_prepend: "consChar c r = prepend [c] r"
  by (auto simp add: prepend_def consChar_def split: sum.splits)

lemma surrogate_plain:
  "isLeadSurrogate c \<or> isTrailSurrogate c \<Longrightarrow> c \<noteq> 0x22 \<and> c \<noteq> 0x5C \<and> \<not> c < 0x20"
  by (auto simp add: isLeadSurrogate_def isTrailSurrogate_def word_le_nat_alt word_less_nat_alt)

lemma parseChars_unicodeEscape:
  "parseChars (unicodeEscape c @ rest) = consChar c (parseChars rest)"
proof -
  obtain h1 h2 h3 h4 where h: "hex4 c = [h1, h2, h3, h4]"
    by (simp add: hex4_def Let_def)
  then show ?thesis
    by (simp add: unicodeEscape_def hex4Value_hex4 [OF h])
qed

lemma parseChars_quoteUnit:
  "parseChars (quoteUnit c @ rest) = consChar c (parseChars rest)"
  by (simp add: quoteUnit_def parseChars_unicodeEscape unescape_def)


lemma parseChars_plain:
  "c \<noteq> 0x22 \<Longrightarrow> c \<noteq> 0x5C \<Longrightarrow> \<not> c < 0x20 \<Longrightarrow> parseChars (c # cs) = prepend [c] (parseChars cs)"
  by (simp add: consChar_prepend)

lemma parseChars_quoteBody:
  "parseChars (quoteBody s @ rest) = prepend s (parseChars rest)"
proof (induction s rule: quoteBody.induct)
  case 1
  then show ?case by simp
next
  case (2 c)
  then show ?case by (simp add: parseChars_quoteUnit consChar_prepend)
next
  case (3 c d cs)
  show ?case
  proof (cases "isLeadSurrogate c \<and> isTrailSurrogate d")
    case True
    then have c: "c \<noteq> 0x22" "c \<noteq> 0x5C" "\<not> c < 0x20" and d: "d \<noteq> 0x22" "d \<noteq> 0x5C" "\<not> d < 0x20"
      using surrogate_plain by blast+
    from True have "quoteBody (c # d # cs) @ rest = c # d # (quoteBody cs @ rest)" by simp
    moreover from True 3 have "parseChars (quoteBody cs @ rest) = prepend cs (parseChars rest)" by blast
    ultimately show ?thesis
      by (simp only: parseChars_plain [OF c] parseChars_plain [OF d] prepend_simps append_Cons append_Nil)
  next
    case False
    then have "quoteBody (c # d # cs) @ rest = quoteUnit c @ (quoteBody (d # cs) @ rest)" by auto
    moreover from False 3 have "parseChars (quoteBody (d # cs) @ rest) = prepend (d # cs) (parseChars rest)"
      by blast
    ultimately show ?thesis
      by (simp only: parseChars_quoteUnit consChar_prepend prepend_simps append_Cons append_Nil)
  qed
qed

lemma parseChars_QuoteJSONString:
  "parseChars (tl (QuoteJSONString s) @ rest) = Inr (s, rest)"
  by (simp add: QuoteJSONString_def parseChars_quoteBody prepend_def)

lemma QuoteJSONString_Cons: "QuoteJSONString s = 0x22 # tl (QuoteJSONString s)"
  by (simp add: QuoteJSONString_def)

lemma digitsValue_snoc: "digitsValue (ds @ [d]) = 10 * digitsValue ds + (uint d - 0x30)"
  by (simp add: digitsValue_def)

lemma digit_char:
  assumes "d < 10"
  shows "isDigit (0x30 + of_nat d) \<and> uint (0x30 + of_nat d :: 16 word) - 0x30 = int d
     \<and> ((0x30 + of_nat d :: 16 word) = 0x30) = (d = 0)"
proof -
  from assms have "d < 16" by simp
  from nat_less_16_cases [OF this] assms show ?thesis
    by (elim disjE) (simp_all add: isDigit_def)
qed

lemma natToString_small: "n < 10 \<Longrightarrow> natToString n = [0x30 + of_nat n]"
  by (simp add: natToString.simps [of n])

lemma natToString_large:
  "\<not> n < 10 \<Longrightarrow> natToString n = natToString (n div 10) @ [0x30 + of_nat (n mod 10)]"
  by (simp add: natToString.simps [of n])

lemma natToString_ne [simp]: "natToString n \<noteq> []"
  by (cases "n < 10") (simp_all add: natToString_small natToString_large)

lemma natToString_all_digits: "list_all isDigit (natToString n)"
proof (induction n rule: natToString.induct)
  case (1 n)
  show ?case
  proof (cases "n < 10")
    case True
    then show ?thesis using digit_char [of n] by (simp add: natToString_small)
  next
    case False
    moreover have "n mod 10 < 10" by simp
    then have "isDigit (0x30 + of_nat (n mod 10))" using digit_char by blast
    ultimately show ?thesis using 1 by (simp add: natToString_large)
  qed
qed

lemma digitsValue_natToString: "digitsValue (natToString n) = int n"
proof (induction n rule: natToString.induct)
  case (1 n)
  show ?case
  proof (cases "n < 10")
    case True
    then show ?thesis using digit_char [of n] by (simp add: natToString_small digitsValue_def)
  next
    case False
    have "n mod 10 < 10" by simp
    then have d: "uint (0x30 + of_nat (n mod 10) :: 16 word) - 0x30 = int (n mod 10)"
      using digit_char by blast
    have "digitsValue (natToString n) = 10 * int (n div 10) + int (n mod 10)"
      using False 1 by (simp add: natToString_large digitsValue_snoc d)
    also have "\<dots> = int (10 * (n div 10) + n mod 10)" by (simp only: of_nat_add of_nat_mult of_nat_numeral)
    also have "\<dots> = int n" by simp
    finally show ?thesis .
  qed
qed

lemma hd_natToString: "(hd (natToString n) = 0x30) = (n = 0)"
proof (induction n rule: natToString.induct)
  case (1 n)
  show ?case
  proof (cases "n < 10")
    case True
    then show ?thesis using digit_char [of n] by (simp add: natToString_small)
  next
    case False
    then have "n div 10 \<noteq> 0" "n \<noteq> 0" by simp_all
    with False 1 show ?thesis by (simp add: natToString_large hd_append)
  qed
qed

lemma length_natToString_gt1: "1 < length (natToString n) \<Longrightarrow> hd (natToString n) \<noteq> 0x30"
  by (cases "n < 10") (simp_all add: natToString_small hd_natToString)


lemma takeWhile_endsNumber:
  "endsNumber rest \<Longrightarrow> takeWhile isDigit rest = [] \<and> dropWhile isDigit rest = rest"
  by (cases rest) (simp_all add: endsNumber_def)

lemma takeWhile_digits:
  assumes "list_all isDigit ds" and "endsNumber rest"
  shows "takeWhile isDigit (ds @ rest) = ds \<and> dropWhile isDigit (ds @ rest) = rest"
proof -
  from assms(1) have d: "\<And>x. x \<in> set ds \<Longrightarrow> isDigit x" by (simp add: list_all_iff)
  have "takeWhile isDigit (ds @ rest) = ds @ takeWhile isDigit rest"
    using d by (rule takeWhile_append2)
  moreover have "dropWhile isDigit (ds @ rest) = dropWhile isDigit rest"
    using d by (rule dropWhile_append2)
  ultimately show ?thesis using takeWhile_endsNumber [OF assms(2)] by simp
qed

lemma numberValue_plain:
  assumes "isSafeInteger (int n)"
  shows "numberValue negative (natToString n) [] 0 rest
           = Inr ((if negative then - 1 else 1) * int n, rest)"
  using assms by (simp add: numberValue_def digitsValue_natToString Let_def)

lemma parseExponent_plain:
  assumes "endsNumber rest"
  shows "parseExponent negative ds [] rest = numberValue negative ds [] 0 rest"
  using assms by (cases rest) (simp_all add: parseExponent_def endsNumber_def)

lemma parseFraction_plain:
  assumes "endsNumber rest"
  shows "parseFraction negative ds rest = numberValue negative ds [] 0 rest"
  using assms parseExponent_plain [OF assms, of negative ds]
  by (cases rest) (simp_all add: parseFraction_def endsNumber_def)

lemma parseUnsigned_natToString:
  assumes "isSafeInteger (int n)" and "endsNumber rest"
  shows "parseUnsigned negative (natToString n @ rest)
           = Inr ((if negative then - 1 else 1) * int n, rest)"
proof -
  have t: "takeWhile isDigit (natToString n @ rest) = natToString n"
    "dropWhile isDigit (natToString n @ rest) = rest"
    using takeWhile_digits [OF natToString_all_digits assms(2)] by simp_all
  have h: "\<not> (natToString n = [] \<or> (1 < length (natToString n) \<and> hd (natToString n) = 0x30))"
    using length_natToString_gt1 natToString_ne by blast
  have "parseUnsigned negative (natToString n @ rest) = parseFraction negative (natToString n) rest"
    unfolding parseUnsigned_def t Let_def using h by (simp only: if_False)
  then show ?thesis
    by (simp only: parseFraction_plain [OF assms(2)] numberValue_plain [OF assms(1)])
qed

lemma hd_natToString_digit: "\<exists>c cs. natToString n = c # cs \<and> isDigit c"
  using natToString_all_digits [of n] natToString_ne [of n]
  by (cases "natToString n") simp_all

lemma parseNumber_numberToString:
  assumes "isSafeInteger i" and "endsNumber rest"
  shows "parseNumber (numberToString i @ rest) = Inr (i, rest)"
proof (cases "i < 0")
  case True
  then have s: "isSafeInteger (int (nat (- i)))" using assms(1) by (simp add: isSafeInteger_def)
  from True have "numberToString i @ rest = 0x2D # (natToString (nat (- i)) @ rest)"
    by (simp add: numberToString_def str_def)
  then have "parseNumber (numberToString i @ rest) = parseUnsigned True (natToString (nat (- i)) @ rest)"
    by (simp add: parseNumber_def)
  also have "\<dots> = Inr ((if True then - 1 else 1) * int (nat (- i)), rest)"
    by (rule parseUnsigned_natToString [OF s assms(2)])
  finally show ?thesis using True by simp
next
  case False
  then have s: "isSafeInteger (int (nat i))" using assms(1) by simp
  obtain c cs where c: "natToString (nat i) = c # cs" "isDigit c"
    using hd_natToString_digit by blast
  then have "c \<noteq> 0x2D" by (auto simp add: isDigit_def)
  with c False have "parseNumber (numberToString i @ rest) = parseUnsigned False (natToString (nat i) @ rest)"
    by (simp add: parseNumber_def numberToString_def)
  also have "\<dots> = Inr ((if False then - 1 else 1) * int (nat i), rest)"
    by (rule parseUnsigned_natToString [OF s assms(2)])
  finally show ?thesis using False by simp
qed


lemma skipWhiteSpace_Cons: "\<not> isJsonWhiteSpace c \<Longrightarrow> skipWhiteSpace (c # cs) = c # cs"
  by (simp add: skipWhiteSpace_def)

lemma endsNumber_delimiter:
  "d = 0x2C \<or> d = 0x7D \<or> d = 0x5D \<Longrightarrow> endsNumber (d # rest) \<and> \<not> isJsonWhiteSpace d"
  by (auto simp add: endsNumber_def isDigit_def isJsonWhiteSpace_def)

lemma parseValue_null: "parseValue (Suc n) (str ''null'' @ rest) = Inr (JNull, rest)"
  by (simp add: str_def skipWhiteSpace_def isJsonWhiteSpace_def isDigit_def)

lemma parseValue_true: "parseValue (Suc n) (str ''true'' @ rest) = Inr (JBool True, rest)"
  by (simp add: str_def skipWhiteSpace_def isJsonWhiteSpace_def isDigit_def)

lemma parseValue_false: "parseValue (Suc n) (str ''false'' @ rest) = Inr (JBool False, rest)"
  by (simp add: str_def skipWhiteSpace_def isJsonWhiteSpace_def isDigit_def)

lemma parseValue_quote:
  "parseValue (Suc n) (0x22 # cs)
     = (case parseChars cs of Inl e \<Rightarrow> Inl e | Inr (x, rest) \<Rightarrow> Inr (JString x, rest))"
  by (simp add: skipWhiteSpace_def isJsonWhiteSpace_def)

declare parseValue.simps [simp del] parseElements.simps [simp del] parseMembers.simps [simp del]

lemma QuoteJSONString_append:
  "QuoteJSONString s @ rest = 0x22 # (tl (QuoteJSONString s) @ rest)"
  by (simp add: QuoteJSONString_def)

lemma parseValue_string:
  "parseValue (Suc n) (QuoteJSONString s @ rest) = Inr (JString s, rest)"
  unfolding QuoteJSONString_append parseValue_quote parseChars_QuoteJSONString by simp

lemma numberToString_start:
  "\<exists>c cs. numberToString i = c # cs \<and> (c = 0x2D \<or> isDigit c)"
proof (cases "i < 0")
  case True
  then show ?thesis by (simp add: numberToString_def str_def)
next
  case False
  then show ?thesis using hd_natToString_digit [of "nat i"] by (auto simp add: numberToString_def)
qed

lemma parseValue_number_start:
  assumes "c = 0x2D \<or> isDigit c"
  shows "parseValue (Suc n) (c # cs)
           = (case parseNumber (c # cs) of Inl e \<Rightarrow> Inl e | Inr (i, rest) \<Rightarrow> Inr (JNumber i, rest))"
proof -
  from assms have "\<not> isJsonWhiteSpace c" "c \<noteq> 0x5B" "c \<noteq> 0x7B" "c \<noteq> 0x22"
    by (auto simp add: isJsonWhiteSpace_def isDigit_def)
  with assms show ?thesis by (simp add: parseValue.simps skipWhiteSpace_def)
qed

lemma parseValue_number:
  assumes "isSafeInteger i" and "endsNumber rest"
  shows "parseValue (Suc n) (numberToString i @ rest) = Inr (JNumber i, rest)"
proof -
  obtain c cs where c: "numberToString i = c # cs" "c = 0x2D \<or> isDigit c"
    using numberToString_start by blast
  have "parseValue (Suc n) (c # (cs @ rest))
      = (case parseNumber (c # (cs @ rest)) of Inl e \<Rightarrow> Inl e | Inr (i, rest) \<Rightarrow> Inr (JNumber i, rest))"
    by (rule parseValue_number_start [OF c(2)])
  moreover have "parseNumber (c # (cs @ rest)) = Inr (i, rest)"
    using parseNumber_numberToString [OF assms] c(1) by simp
  ultimately show ?thesis using c(1) by simp
qed

lemma parseValue_atomic:
  assumes "atomic v" and "endsNumber rest"
  shows "parseValue (Suc n) (serialize v @ rest) = Inr (v, rest)"
proof (cases v)
  case JNull
  then show ?thesis by (simp only: serialize.simps parseValue_null)
next
  case (JBool b)
  then show ?thesis by (cases b) (simp_all only: serialize.simps parseValue_true parseValue_false if_True if_False)
next
  case (JNumber i)
  with assms show ?thesis by (simp only: serialize.simps atomic.simps parseValue_number)
next
  case (JString s)
  then show ?thesis by (simp only: serialize.simps parseValue_string)
next
  case (JArray vs)
  with assms show ?thesis by simp
next
  case (JObject ms)
  with assms show ?thesis by simp
qed


lemma serialize_JObject:
  "serialize (JObject ms) = 0x7B # joinComma (map renderMember ms) @ [0x7D]"
proof -
  have "(\<lambda>(k, v). QuoteJSONString k @ str '':'' @ serialize v) = renderMember"
    by (rule ext) (simp add: renderMember_def case_prod_beta)
  then show ?thesis by (simp add: str_def)
qed

lemma serialize_JArray:
  "serialize (JArray vs) = 0x5B # joinComma (map serialize vs) @ [0x5D]"
  by (simp add: str_def)

lemma joinComma_Cons: "xs \<noteq> [] \<Longrightarrow> joinComma (x # xs) = x @ 0x2C # joinComma xs"
  by (cases xs) (simp_all add: str_def)

lemma joinComma_start:
  assumes "xs \<noteq> []" and "\<forall>x \<in> set xs. \<exists>t. x = c # t"
  shows "\<exists>t. joinComma xs = c # t"
proof (cases xs)
  case Nil
  with assms show ?thesis by simp
next
  case (Cons x ys)
  with assms(2) obtain t where "x = c # t" by auto
  with Cons show ?thesis by (cases ys) simp_all
qed

lemma parseMembers_step:
  assumes "parseValue n (serialize v @ d # rest) = Inr (v, d # rest)" and "\<not> isJsonWhiteSpace d"
  shows "parseMembers (Suc n) (renderMember (k, v) @ d # rest) =
           (if d = 0x2C then
              (case parseMembers n rest of Inl e \<Rightarrow> Inl e | Inr (ms, r) \<Rightarrow> Inr ((k, v) # ms, r))
            else if d = 0x7D then Inr ([(k, v)], rest)
            else Inl SyntaxErr)"
proof -
  have e: "renderMember (k, v) @ d # rest
      = 0x22 # (tl (QuoteJSONString k) @ (0x3A # serialize v @ d # rest))"
    by (simp add: renderMember_def QuoteJSONString_def str_def del: serialize.simps)
  show ?thesis
    unfolding e using assms
    by (simp add: parseMembers.simps skipWhiteSpace_def isJsonWhiteSpace_def
        parseChars_QuoteJSONString del: serialize.simps)
qed

lemma parseMembers_atomic:
  assumes "ms \<noteq> []" and "list_all (\<lambda>m. atomic (snd m)) ms" and "length ms < n"
  shows "parseMembers n (joinComma (map renderMember ms) @ 0x7D # rest) = Inr (ms, rest)"
  using assms
proof (induction ms arbitrary: n rule: list_nonempty_induct)
  case (single m)
  then obtain n' where n: "n = Suc (Suc n')" by (cases n; cases "n - 1") simp_all
  obtain k v where m: "m = (k, v)" by (cases m)
  from single m have "atomic v" by simp
  then have "parseValue (Suc n') (serialize v @ 0x7D # rest) = Inr (v, 0x7D # rest)"
    using endsNumber_delimiter [of "0x7D" rest] by (simp add: parseValue_atomic)
  then have "parseMembers (Suc (Suc n')) (renderMember (k, v) @ 0x7D # rest) = Inr ([(k, v)], rest)"
    using parseMembers_step [of "Suc n'" v "0x7D" rest k]
    by (simp add: isJsonWhiteSpace_def)
  then show ?case by (simp add: n m)
next
  case (cons m ms)
  then obtain n' where n: "n = Suc (Suc n')" by (cases n; cases "n - 1") simp_all
  obtain k v where m: "m = (k, v)" by (cases m)
  from cons.prems m have "atomic v" by simp
  then have v: "parseValue (Suc n') (serialize v @ 0x2C # (joinComma (map renderMember ms) @ 0x7D # rest))
      = Inr (v, 0x2C # (joinComma (map renderMember ms) @ 0x7D # rest))"
    using endsNumber_delimiter [of "0x2C"] by (simp add: parseValue_atomic)
  from cons.prems n have "list_all (\<lambda>m. atomic (snd m)) ms" "length ms < Suc n'" by simp_all
  then have IH: "parseMembers (Suc n') (joinComma (map renderMember ms) @ 0x7D # rest) = Inr (ms, rest)"
    by (rule cons.IH)
  have "parseMembers (Suc (Suc n'))
          (renderMember (k, v) @ 0x2C # (joinComma (map renderMember ms) @ 0x7D # rest))
        = Inr ((k, v) # ms, rest)"
    using parseMembers_step [OF v, of k] IH by (simp add: isJsonWhiteSpace_def)
  moreover from cons.hyps have "joinComma (map renderMember (m # ms)) @ 0x7D # rest
      = renderMember (k, v) @ 0x2C # (joinComma (map renderMember ms) @ 0x7D # rest)"
    by (simp add: joinComma_Cons m)
  ultimately show ?case by (simp only: n m)
qed

lemma defineProperty_new: "fst kv \<notin> fst ` set acc \<Longrightarrow> defineProperty acc kv = acc @ [kv]"
  by (induction acc) auto

lemma foldl_defineProperty:
  "distinct (map fst (acc @ ms)) \<Longrightarrow> foldl defineProperty acc ms = acc @ ms"
proof (induction ms arbitrary: acc)
  case Nil
  then show ?case by simp
next
  case (Cons m ms)
  then have "defineProperty acc m = acc @ [m]" by (intro defineProperty_new) auto
  moreover from Cons.prems have "distinct (map fst ((acc @ [m]) @ ms))" by simp
  ultimately show ?case using Cons.IH [of "acc @ [m]"] by simp
qed

lemma parseValue_brace:
  assumes "d \<noteq> 0x7D" and "\<not> isJsonWhiteSpace d"
  shows "parseValue (Suc n) (0x7B # d # ds)
           = (case parseMembers n (d # ds) of
                Inl e \<Rightarrow> Inl e
              | Inr (ms, rest) \<Rightarrow> Inr (JObject (foldl defineProperty [] ms), rest))"
  using assms by (simp add: parseValue.simps skipWhiteSpace_def isJsonWhiteSpace_def)

lemma parseValue_bracket:
  assumes "d \<noteq> 0x5D" and "\<not> isJsonWhiteSpace d"
  shows "parseValue (Suc n) (0x5B # d # ds)
           = (case parseElements n (d # ds) of
                Inl e \<Rightarrow> Inl e
              | Inr (vs, rest) \<Rightarrow> Inr (JArray vs, rest))"
  using assms by (simp add: parseValue.simps skipWhiteSpace_def isJsonWhiteSpace_def)

lemma renderMember_start: "\<exists>t. renderMember m = 0x22 # t"
  by (simp add: renderMember_def QuoteJSONString_def)

lemma parseValue_flatObject:
  assumes "flatObject b v" and "b \<le> f"
  shows "parseValue f (serialize v @ rest) = Inr (v, rest)"
proof -
  from assms(1) obtain ms where v: "v = JObject ms" and ms: "ms \<noteq> []"
    "list_all (\<lambda>m. atomic (snd m)) ms" "distinct (map fst ms)" "length ms + 2 \<le> b"
    by (cases v) (simp_all add: flatObject_def)
  from ms(4) assms(2) obtain n where f: "f = Suc n" and n: "length ms < n"
    by (cases f) simp_all
  obtain t where t: "joinComma (map renderMember ms) = 0x22 # t"
    using joinComma_start [of "map renderMember ms" "0x22"] ms(1) renderMember_start by auto
  have "parseMembers n (joinComma (map renderMember ms) @ 0x7D # rest) = Inr (ms, rest)"
    using ms(1,2) n by (rule parseMembers_atomic)
  then have p: "parseMembers n (0x22 # (t @ 0x7D # rest)) = Inr (ms, rest)"
    by (simp add: t)
  have "parseValue (Suc n) (0x7B # 0x22 # (t @ 0x7D # rest))
      = Inr (JObject (foldl defineProperty [] ms), rest)"
    by (subst parseValue_brace) (simp_all add: isJsonWhiteSpace_def p)
  moreover have "foldl defineProperty [] ms = ms"
    using foldl_defineProperty [of "[]" ms] ms(3) by simp
  ultimately show ?thesis
    by (simp add: v f serialize_JObject t del: serialize.simps)
qed

lemma parseElements_step:
  assumes "parseValue n (body @ d # rest) = Inr (v, d # rest)" and "\<not> isJsonWhiteSpace d"
  shows "parseElements (Suc n) (body @ d # rest) =
           (if d = 0x2C then
              (case parseElements n rest of Inl e \<Rightarrow> Inl e | Inr (vs, r) \<Rightarrow> Inr (v # vs, r))
            else if d = 0x5D then Inr ([v], rest)
            else Inl SyntaxErr)"
  using assms by (simp add: parseElements.simps skipWhiteSpace_def)

lemma parseElements_flat:
  assumes "vs \<noteq> []" and "list_all (flatObject b) vs" and "length vs + b \<le> n"
  shows "parseElements n (joinComma (map serialize vs) @ 0x5D # rest) = Inr (vs, rest)"
  using assms
proof (induction vs arbitrary: n rule: list_nonempty_induct)
  case (single v)
  then obtain n' where n: "n = Suc n'" and n': "b \<le> n'" by (cases n) simp_all
  from single have "flatObject b v" by simp
  then have "parseValue n' (serialize v @ 0x5D # rest) = Inr (v, 0x5D # rest)"
    using n' by (rule parseValue_flatObject)
  then have "parseElements (Suc n') (serialize v @ 0x5D # rest) = Inr ([v], rest)"
    using parseElements_step [of n' "serialize v" "0x5D" rest v] by (simp add: isJsonWhiteSpace_def)
  then show ?case by (simp add: n del: serialize.simps)
next
  case (cons v vs)
  then obtain n' where n: "n = Suc n'" and n': "b \<le> n'" "length vs + b \<le> n'" by (cases n) simp_all
  from cons.prems have "flatObject b v" by simp
  then have v: "parseValue n' (serialize v @ 0x2C # (joinComma (map serialize vs) @ 0x5D # rest))
      = Inr (v, 0x2C # (joinComma (map serialize vs) @ 0x5D # rest))"
    using n'(1) by (rule parseValue_flatObject)
  from cons.prems have "list_all (flatObject b) vs" by simp
  then have IH: "parseElements n' (joinComma (map serialize vs) @ 0x5D # rest) = Inr (vs, rest)"
    using n'(2) by (rule cons.IH)
  have "parseElements (Suc n') (serialize v @ 0x2C # (joinComma (map serialize vs) @ 0x5D # rest))
      = Inr (v # vs, rest)"
    using parseElements_step [OF v] IH by (simp add: isJsonWhiteSpace_def)
  moreover from cons.hyps have "joinComma (map serialize (v # vs)) @ 0x5D # rest
      = serialize v @ 0x2C # (joinComma (map serialize vs) @ 0x5D # rest)"
    by (simp add: joinComma_Cons del: serialize.simps)
  ultimately show ?case by (simp only: n)
qed

lemma flatObject_start: "flatObject b v \<Longrightarrow> \<exists>t. serialize v = 0x7B # t"
  by (cases v) (simp_all add: flatObject_def str_def)

lemma parseValue_array:
  assumes "list_all (flatObject b) vs" and "vs = [] \<or> length vs + b \<le> n"
  shows "parseValue (Suc n) (serialize (JArray vs) @ rest) = Inr (JArray vs, rest)"
proof (cases "vs = []")
  case True
  then show ?thesis by (simp add: parseValue.simps str_def skipWhiteSpace_def isJsonWhiteSpace_def)
next
  case False
  with assms(2) have n: "length vs + b \<le> n" by simp
  have "\<forall>x \<in> set (map serialize vs). \<exists>t. x = 0x7B # t"
    using assms(1) flatObject_start by (auto simp add: list_all_iff)
  then obtain t where t: "joinComma (map serialize vs) = 0x7B # t"
    using joinComma_start [of "map serialize vs" "0x7B"] False by auto
  have "parseElements n (joinComma (map serialize vs) @ 0x5D # rest) = Inr (vs, rest)"
    using False assms(1) n by (rule parseElements_flat)
  then have p: "parseElements n (0x7B # (t @ 0x5D # rest)) = Inr (vs, rest)" by (simp add: t)
  have "parseValue (Suc n) (0x5B # 0x7B # (t @ 0x5D # rest)) = Inr (JArray vs, rest)"
    by (subst parseValue_bracket) (simp_all add: isJsonWhiteSpace_def p)
  then show ?thesis by (simp add: serialize_JArray t del: serialize.simps)
qed

lemma JSON_parse_array:
  assumes "list_all (flatObject b) vs"
    and "vs = [] \<or> length vs + b \<le> length (serialize (JArray vs))"
  shows "JSON_parse (serialize (JArray vs)) = Inr (JArray vs)"
  using parseValue_array [OF assms, of "[]"]
  by (simp add: JSON_parse_def skipWhiteSpace_def del: serialize.simps)


text \<open>The todos: their objects are flat, the fuel suffices, and the cast reads them back.\<close>

lemma todoKeys_distinct: "distinct todoKeys"
  by (simp add: todoKeys_def str_def)

lemma map_fst_todoValue: "todoValue t = JObject ms \<Longrightarrow> map fst ms = todoKeys"
  by (auto simp add: todoValue_def todoKeys_def)

lemma flatObject_todoValue:
  assumes "isSafeInteger (order t)"
  shows "flatObject 10 (todoValue t)"
proof -
  obtain ms where ms: "todoValue t = JObject ms" by (simp add: todoValue_def)
  have "map fst ms = todoKeys" using ms by (rule map_fst_todoValue)
  then have "distinct (map fst ms)" using todoKeys_distinct by simp
  moreover have "list_all (\<lambda>m. atomic (snd m)) ms" "length ms = 8" "ms \<noteq> []"
    using ms assms by (auto simp add: todoValue_def split: option.splits)
  ultimately show ?thesis by (simp add: flatObject_def ms)
qed

lemma length_joinComma:
  "\<forall>x \<in> set xs. k \<le> length x \<Longrightarrow> k * length xs \<le> length (joinComma xs)"
proof (induction xs rule: joinComma.induct)
  case 1
  then show ?case by simp
next
  case (2 x)
  then show ?case by simp
next
  case (3 x y ys)
  then have "k * length (y # ys) \<le> length (joinComma (y # ys))" "k \<le> length x" by simp_all
  then show ?case by simp
qed

lemma length_serialize_todoValue: "11 \<le> length (serialize (todoValue t))"
  by (simp add: todoValue_def str_def)

lemma fuel_enough:
  "todos = [] \<or> length (map todoValue todos) + 10 \<le> length (serialize (JArray (map todoValue todos)))"
proof (cases "todos = []")
  case True
  then show ?thesis by simp
next
  case False
  have "11 * length (map serialize (map todoValue todos))
      \<le> length (joinComma (map serialize (map todoValue todos)))"
    by (rule length_joinComma) (auto simp add: length_serialize_todoValue simp del: serialize.simps)
  moreover from False have "1 \<le> length todos" by (cases todos) simp_all
  ultimately show ?thesis by (simp add: serialize_JArray del: serialize.simps)
qed

lemma JSON_parse_stringify:
  assumes "list_all (\<lambda>t. isSafeInteger (order t)) todos"
  shows "JSON_parse (JSON_stringify todos) = Inr (JArray (map todoValue todos))"
proof -
  have "list_all (flatObject 10) (map todoValue todos)"
    using assms by (simp add: list_all_iff flatObject_todoValue)
  moreover have "map todoValue todos = []
      \<or> length (map todoValue todos) + 10 \<le> length (serialize (JArray (map todoValue todos)))"
    using fuel_enough [of todos] by simp
  ultimately show ?thesis
    unfolding JSON_stringify_def by (rule JSON_parse_array)
qed

lemma priority_round_trip: "asPriority (JString (priorityString p)) = Some p"
  by (cases p) (simp_all add: asPriority_def priorityString_def str_def)

lemma category_round_trip:
  "asNullableCategory (case c of None \<Rightarrow> JNull | Some x \<Rightarrow> JString (categoryString x)) = Some c"
proof (cases c)
  case None
  then show ?thesis by (simp add: asNullableCategory_def)
next
  case (Some x)
  then show ?thesis by (cases x) (simp_all add: asNullableCategory_def categoryString_def str_def)
qed

lemma dueDate_round_trip:
  "asNullableString (case d of None \<Rightarrow> JNull | Some s \<Rightarrow> JString s) = Some d"
  by (cases d) (simp_all add: asNullableString_def)

lemma asTodo_todoValue: "asTodo (todoValue t) = Some t"
proof -
  have "asTodo (todoValue t)
      = Some \<lparr>id' = id' t, title = title t, completed = completed t, dueDate = dueDate t,
              category = category t, priority = priority t, createdAt = createdAt t,
              order = order t\<rparr>"
    by (simp add: asTodo_def todoValue_def todoKeys_def asString_def asBool_def asNumber_def
        priority_round_trip category_round_trip dueDate_round_trip)
  then show ?thesis by simp
qed

lemma asTodos_todoValues: "asTodos (JArray (map todoValue todos)) = Some todos"
proof -
  have "those (map asTodo (map todoValue todos)) = Some todos"
    by (induction todos) (simp_all add: asTodo_todoValue)
  then show ?thesis by (simp add: asTodos_def)
qed

text \<open>
  Claim C9. Take a collection whose order values are safe integers, as \<open>Date.now()\<close> and
  positions are, and a browser whose storage accepts the write. After \<open>persistToStorage\<close>
  the storage holds the JSON text of the collection under the storage key;
  \<open>JSON.parse\<close> of that text gives back the array of the todos' objects; and a fresh
  instance of the store, initialised from that storage, has a snapshot equal to the
  collection: the same items in the same order, every field equal.
\<close>

theorem storage_round_trip:
  assumes "window s" and "accepts s STORAGE_KEY (JSON_stringify todos)"
    and "list_all (\<lambda>t. isSafeInteger (order t)) todos"
  shows "localStorage (persistToStorage todos s) STORAGE_KEY = Some (JSON_stringify todos)
       \<and> JSON_parse (JSON_stringify todos) = Inr (JArray (map todoValue todos))
       \<and> map_option getSnapshot (initializeFromStorage (freshStore (persistToStorage todos s)))
           = Some todos"
proof -
  have stored: "localStorage (persistToStorage todos s) STORAGE_KEY = Some (JSON_stringify todos)"
    using assms(1,2) by (simp add: persistToStorage_eq)
  have parse: "JSON_parse (JSON_stringify todos) = Inr (JArray (map todoValue todos))"
    using assms(3) by (rule JSON_parse_stringify)
  have ne: "JSON_stringify todos \<noteq> []"
    by (simp add: JSON_stringify_def serialize_JArray del: serialize.simps)
  have "initializeFromStorage (freshStore (persistToStorage todos s))
      = Some ((freshStore (persistToStorage todos s))\<lparr>todosCache := todos\<rparr>)"
    using assms(1) stored ne
    by (simp add: initializeFromStorage_def freshStore_def getItem_def parse asTodos_todoValues
        persistToStorage_eq)
  with stored parse show ?thesis by (simp add: getSnapshot_def)
qed

theorem storage_round_trip_witness:
  "window exampleStore \<and> accepts exampleStore STORAGE_KEY (JSON_stringify (todosCache threeStore))
   \<and> list_all (\<lambda>t. isSafeInteger (order t)) (todosCache threeStore)
   \<and> length (todosCache threeStore) = 3
   \<and> map_option getSnapshot
         (initializeFromStorage (freshStore (persistToStorage (todosCache threeStore) exampleStore)))
       = Some (todosCache threeStore)"
  using storage_round_trip [of exampleStore "todosCache threeStore"]
  by (simp add: exampleStore_def threeStore_def exampleTodo_def isSafeInteger_def
      MAX_SAFE_INTEGER_def)

end
